theory Spec2Isabelle
  imports Complex_Main
begin

section \<open>Numbers and arrays\<close>

text \<open>
  The model of \<^verbatim>\<open>src/model.py\<close>. The program computes with Python numbers and
  numpy float64 arrays. Finite values are idealised as exact reals: rounding and overflow
  are not modelled. What numpy does where arithmetic leaves the finite numbers is
  modelled: a division by zero does not raise, it yields \<open>nan\<close> or an infinity, and
  these propagate through later arithmetic as IEEE 754 prescribes. Signed zeros are not
  distinguished (a zero divisor counts as \<open>+0\<close>).
\<close>

datatype npfloat = Fin real | PInf | NInf | NaN

fun is_fin :: "npfloat \<Rightarrow> bool" where
  "is_fin (Fin _) = True"
| "is_fin _ = False"

fun the_fin :: "npfloat \<Rightarrow> real" where
  "the_fin (Fin a) = a"
| "the_fin _ = 0"

text \<open>An infinity with the sign of \<open>a\<close>, for \<open>a \<noteq> 0\<close>.\<close>

definition inf_of_sign :: "real \<Rightarrow> npfloat" where
  "inf_of_sign a = (if 0 < a then PInf else NInf)"

fun fneg :: "npfloat \<Rightarrow> npfloat" where
  "fneg (Fin a) = Fin (- a)"
| "fneg PInf = NInf"
| "fneg NInf = PInf"
| "fneg NaN = NaN"

fun fadd :: "npfloat \<Rightarrow> npfloat \<Rightarrow> npfloat" where
  "fadd (Fin a) (Fin b) = Fin (a + b)"
| "fadd NaN _ = NaN"
| "fadd _ NaN = NaN"
| "fadd PInf NInf = NaN"
| "fadd NInf PInf = NaN"
| "fadd PInf _ = PInf"
| "fadd _ PInf = PInf"
| "fadd NInf _ = NInf"
| "fadd _ NInf = NInf"

definition fsub :: "npfloat \<Rightarrow> npfloat \<Rightarrow> npfloat" where
  "fsub x y = fadd x (fneg y)"

fun fmul :: "npfloat \<Rightarrow> npfloat \<Rightarrow> npfloat" where
  "fmul (Fin a) (Fin b) = Fin (a * b)"
| "fmul NaN _ = NaN"
| "fmul _ NaN = NaN"
| "fmul (Fin a) PInf = (if a = 0 then NaN else inf_of_sign a)"
| "fmul (Fin a) NInf = (if a = 0 then NaN else inf_of_sign (- a))"
| "fmul PInf (Fin b) = (if b = 0 then NaN else inf_of_sign b)"
| "fmul NInf (Fin b) = (if b = 0 then NaN else inf_of_sign (- b))"
| "fmul PInf PInf = PInf"
| "fmul NInf NInf = PInf"
| "fmul PInf NInf = NInf"
| "fmul NInf PInf = NInf"

fun fdiv :: "npfloat \<Rightarrow> npfloat \<Rightarrow> npfloat" where
  "fdiv (Fin a) (Fin b) =
     (if b = 0 then (if a = 0 then NaN else inf_of_sign a) else Fin (a / b))"
| "fdiv NaN _ = NaN"
| "fdiv _ NaN = NaN"
| "fdiv (Fin a) PInf = Fin 0"
| "fdiv (Fin a) NInf = Fin 0"
| "fdiv PInf (Fin b) = (if b < 0 then NInf else PInf)"
| "fdiv NInf (Fin b) = (if b < 0 then PInf else NInf)"
| "fdiv PInf PInf = NaN"
| "fdiv PInf NInf = NaN"
| "fdiv NInf PInf = NaN"
| "fdiv NInf NInf = NaN"

text \<open>\<^verbatim>\<open>a.sum()\<close> and \<^verbatim>\<open>np.sum(a)\<close>; the sum of the empty array is \<open>0.0\<close>.\<close>

primrec fsum :: "npfloat list \<Rightarrow> npfloat" where
  "fsum [] = Fin 0"
| "fsum (x # xs) = fadd x (fsum xs)"

text \<open>\<^verbatim>\<open>a.cumsum()\<close>: the running sums, the first being the first element.\<close>

primrec cumsum_from :: "npfloat \<Rightarrow> npfloat list \<Rightarrow> npfloat list" where
  "cumsum_from acc [] = []"
| "cumsum_from acc (x # xs) = fadd acc x # cumsum_from (fadd acc x) xs"

definition cumsum :: "npfloat list \<Rightarrow> npfloat list" where
  "cumsum xs = (case xs of [] \<Rightarrow> [] | x # ys \<Rightarrow> x # cumsum_from x ys)"

text \<open>The exceptions the modelled code can raise; a method returns \<open>Inl\<close> of one, or
  \<open>Inr\<close> of its result.\<close>

datatype error = ValueError | IndexError | KeyError | LinAlgError

text \<open>
  The elementwise product \<^verbatim>\<open>a * b\<close> of two one-dimensional arrays, with numpy's
  broadcasting: the shapes must agree, or one of them must be \<open>(1,)\<close>.
\<close>

definition np_mul :: "npfloat list \<Rightarrow> npfloat list \<Rightarrow> error + npfloat list" where
  "np_mul xs ys =
     (if length xs = length ys then Inr (map2 fmul xs ys)
      else if length xs = 1 then Inr (map (fmul (hd xs)) ys)
      else if length ys = 1 then Inr (map (\<lambda>x. fmul x (hd ys)) xs)
      else Inl ValueError)"

section \<open>The parameter set\<close>

text \<open>
  An instance of the class \<^verbatim>\<open>Infection\<close>. \<open>r0\<close> and the percentages are Python
  numbers, the two delays Python ints, the two profiles numpy arrays, and \<open>days\<close> is
  only ever assigned a \<^verbatim>\<open>len\<close>.
\<close>

record Infection =
  r0 :: real
  infection_rates :: "npfloat list"
  symptoms :: "npfloat list"
  days :: nat
  testing_rate :: real
  testing_delay :: int
  isolation_effectivity :: real
  tracing_rate :: real
  tracing_delay :: int
  asymptomatic_inf :: real

text \<open>
  \<^verbatim>\<open>set_rates(self, r0=None, infection_rates=None, symptoms=None)\<close>. An argument
  is \<open>None\<close> or a Python number, respectively a Python list of numbers. \<^verbatim>\<open>a or b\<close>
  takes \<open>b\<close> when \<open>a\<close> is \<open>None\<close>, zero or the empty list. The method has no raising
  path: numpy divides by a zero sum without an exception.
\<close>

definition set_rates ::
  "Infection \<Rightarrow> real option \<Rightarrow> real list option \<Rightarrow> real list option \<Rightarrow> error + Infection"
where
  "set_rates self r0_arg infection_rates_arg symptoms_arg =
     (let r = (case r0_arg of None \<Rightarrow> r0 self
                | Some v \<Rightarrow> if v = 0 then r0 self else v);
          raw = (case infection_rates_arg of None \<Rightarrow> infection_rates self
                | Some [] \<Rightarrow> infection_rates self
                | Some (x # xs) \<Rightarrow> map Fin (x # xs));
          scaled = map (\<lambda>x. fdiv (fmul (Fin r) x) (fsum raw)) raw;
          sym = (case symptoms_arg of None \<Rightarrow> symptoms self
                | Some [] \<Rightarrow> symptoms self
                | Some (x # xs) \<Rightarrow> map Fin (x # xs))
      in Inr (self\<lparr>r0 := r, infection_rates := scaled, days := length scaled,
                   symptoms := sym\<rparr>))"

text \<open>
  The registry \<^verbatim>\<open>variables\<close>: for each id its range and default, in the order of
  the dictionary. The display names and the category are left out; the getter is
  \<open>getattr\<close> below.
\<close>

record Variable =
  vmin :: real
  vmax :: real
  vstep :: real
  vdefault :: real

definition variables :: "(string \<times> Variable) list" where
  "variables =
     [(''r0'', \<lparr>vmin = 1, vmax = 5, vstep = 1 / 10, vdefault = 2\<rparr>),
      (''testing_rate'', \<lparr>vmin = 0, vmax = 100, vstep = 5, vdefault = 50\<rparr>),
      (''testing_delay'', \<lparr>vmin = 0, vmax = 10, vstep = 1, vdefault = 3\<rparr>),
      (''isolation_effectivity'', \<lparr>vmin = 0, vmax = 100, vstep = 5, vdefault = 90\<rparr>),
      (''tracing_rate'', \<lparr>vmin = 0, vmax = 100, vstep = 5, vdefault = 0\<rparr>),
      (''tracing_delay'', \<lparr>vmin = 0, vmax = 10, vstep = 1, vdefault = 1\<rparr>),
      (''asymptomatic_inf'', \<lparr>vmin = 0, vmax = 100, vstep = 5, vdefault = 20\<rparr>)]"

text \<open>
  \<^verbatim>\<open>setattr(self, id, x)\<close> for the ids of the registry. The values the program
  assigns to the two delays are Python ints (the registry's defaults and the steps of an
  int range); they reach the model as reals and are read back with \<open>floor\<close>, which is
  exact on them.
\<close>

definition setattr :: "Infection \<Rightarrow> string \<Rightarrow> real \<Rightarrow> Infection" where
  "setattr self ident x =
     (if ident = ''r0'' then self\<lparr>r0 := x\<rparr>
      else if ident = ''testing_rate'' then self\<lparr>testing_rate := x\<rparr>
      else if ident = ''testing_delay'' then self\<lparr>testing_delay := \<lfloor>x\<rfloor>\<rparr>
      else if ident = ''isolation_effectivity'' then self\<lparr>isolation_effectivity := x\<rparr>
      else if ident = ''tracing_rate'' then self\<lparr>tracing_rate := x\<rparr>
      else if ident = ''tracing_delay'' then self\<lparr>tracing_delay := \<lfloor>x\<rfloor>\<rparr>
      else if ident = ''asymptomatic_inf'' then self\<lparr>asymptomatic_inf := x\<rparr>
      else self)"

text \<open>The getters of the registry, \<^verbatim>\<open>lambda x: x.<id>\<close>.\<close>

definition getattr :: "Infection \<Rightarrow> string \<Rightarrow> real" where
  "getattr self ident =
     (if ident = ''r0'' then r0 self
      else if ident = ''testing_rate'' then testing_rate self
      else if ident = ''testing_delay'' then of_int (testing_delay self)
      else if ident = ''isolation_effectivity'' then isolation_effectivity self
      else if ident = ''tracing_rate'' then tracing_rate self
      else if ident = ''tracing_delay'' then of_int (tracing_delay self)
      else if ident = ''asymptomatic_inf'' then asymptomatic_inf self
      else 0)"

text \<open>
  The attributes of the class itself, which an instance reads until it assigns its own.
  The six attributes that are \<open>None\<close> in the class, and \<open>days\<close>, which the class does
  not have, stand here as \<open>0\<close>: the constructor assigns every one of them before
  anything reads it.
\<close>

definition Infection_class :: Infection where
  "Infection_class =
     \<lparr>r0 = 3, infection_rates = map Fin [0, 1, 3, 6, 8, 6, 3, 1],
      symptoms = map Fin [0, 0, 0, 0, 10, 20, 20, 10], days = 0,
      testing_rate = 0, testing_delay = 0, isolation_effectivity = 0,
      tracing_rate = 0, tracing_delay = 0, asymptomatic_inf = 0\<rparr>"

text \<open>\<^verbatim>\<open>__init__\<close>: every variable of the registry gets its default, then
  \<^verbatim>\<open>set_rates()\<close> runs with no argument.\<close>

definition Infection_init :: "error + Infection" where
  "Infection_init =
     set_rates (foldl (\<lambda>self (ident, var). setattr self ident (vdefault var))
                  Infection_class variables) None None None"

text \<open>The instance \<^verbatim>\<open>Infection()\<close> constructs; the constructor has no raising path.\<close>

definition fresh :: Infection where
  "fresh = projr Infection_init"

section \<open>The suppression engine\<close>

text \<open>
  \<^verbatim>\<open>suppress(self)\<close>. \<^verbatim>\<open>np.ones(k)\<close> raises \<open>ValueError\<close> for a negative
  \<open>k\<close>, \<^verbatim>\<open>testing_suppression[-1]\<close> raises \<open>IndexError\<close> on an empty array and
  is evaluated only when \<open>rest > 0\<close>; the slice \<^verbatim>\<open>[:len(self.infection_rates)]\<close> is
  \<open>take\<close>. The Python scalars are multiplied before they meet an array, as the
  source's parentheses and left-to-right evaluation have it.
\<close>

definition suppress :: "Infection \<Rightarrow> error + npfloat list" where
  "suppress self =
     (let sym_sum = fsum (symptoms self);
          effective_symptoms =
            map (\<lambda>x. fdiv x (fadd (fmul (fsub (Fin 100) sym_sum)
                                     (Fin (asymptomatic_inf self / 100))) sym_sum))
              (symptoms self);
          rest = int (days self) - int (length (symptoms self)) - testing_delay self;
          testing_suppression =
            map (\<lambda>c. fsub (Fin 1)
                        (fmul (Fin (testing_rate self / 100 * (isolation_effectivity self / 100))) c))
              (cumsum effective_symptoms)
      in if testing_delay self < 0 then Inl ValueError
         else if 0 < rest \<and> testing_suppression = [] then Inl IndexError
         else
           let overall_testing_suppression =
                 take (length (infection_rates self))
                   (replicate (nat (testing_delay self)) (Fin 1) @ testing_suppression @
                    (if 0 < rest then replicate (nat rest) (last testing_suppression) else []));
               rest2 = int (days self) - (testing_delay self + tracing_delay self);
               tracing_suppression =
                 fsub (Fin 1)
                   (fmul (fmul (fmul (fsum effective_symptoms) (Fin (testing_rate self / 100)))
                            (Fin (tracing_rate self / 100)))
                      (Fin (isolation_effectivity self / 100)))
           in if testing_delay self + tracing_delay self < 0 then Inl ValueError
              else
                let overall_tracing_suppression =
                      take (length (infection_rates self))
                        (replicate (nat (testing_delay self + tracing_delay self)) (Fin 1) @
                         (if 0 < rest2 then replicate (nat rest2) tracing_suppression else []))
                in case np_mul (infection_rates self) overall_testing_suppression of
                     Inl e \<Rightarrow> Inl e
                   | Inr p \<Rightarrow> np_mul p overall_tracing_suppression)"

text \<open>
  The same vector as the specification describes it, day by day: the share of each day
  of the symptom profile, the testing multiplier and the tracing multiplier of a day
  \<open>d\<close>, and the product with the stored profile over \<open>days\<close> entries.
\<close>

definition effective_symptom_share :: "Infection \<Rightarrow> npfloat list" where
  "effective_symptom_share self =
     map (\<lambda>x. fdiv x (fadd (fmul (fsub (Fin 100) (fsum (symptoms self)))
                              (Fin (asymptomatic_inf self / 100))) (fsum (symptoms self))))
       (symptoms self)"

definition testing_multiplier :: "Infection \<Rightarrow> nat \<Rightarrow> npfloat" where
  "testing_multiplier self d =
     (if int d < testing_delay self then Fin 1
      else
        let k = nat (int d - testing_delay self);
            cumulative = cumsum (effective_symptom_share self)
        in fsub (Fin 1)
             (fmul (Fin (testing_rate self / 100 * (isolation_effectivity self / 100)))
                (if k < length cumulative then cumulative ! k else last cumulative)))"

definition tracing_multiplier :: "Infection \<Rightarrow> nat \<Rightarrow> npfloat" where
  "tracing_multiplier self d =
     (if int d < testing_delay self + tracing_delay self then Fin 1
      else fsub (Fin 1)
             (fmul (fmul (fmul (fsum (effective_symptom_share self))
                            (Fin (testing_rate self / 100)))
                      (Fin (tracing_rate self / 100)))
                (Fin (isolation_effectivity self / 100))))"

definition effective_infectiousness :: "Infection \<Rightarrow> npfloat list" where
  "effective_infectiousness self =
     map (\<lambda>d. fmul (fmul (infection_rates self ! d) (testing_multiplier self d))
                 (tracing_multiplier self d))
       [0..<days self]"

section \<open>The growth estimator\<close>

text \<open>
  \<^verbatim>\<open>compute_growth(self, a)\<close> stacks \<open>a\<close>, as a row, on the identity matrix without
  its last row. \<^verbatim>\<open>reshape\<close> raises \<open>ValueError\<close> when \<open>a\<close> has not \<open>days\<close>
  entries. \<^verbatim>\<open>np.linalg.eig\<close> is numpy's: it raises \<open>LinAlgError\<close> for a matrix
  that is not square (here the case \<open>days = 0\<close>) or has an entry that is not finite, and
  returns the eigenvalues otherwise; it is modelled by what it computes, the complex
  numbers \<open>l\<close> with \<open>A x = l x\<close> for a vector \<open>x\<close> other than zero.
\<close>

definition companion :: "nat \<Rightarrow> real list \<Rightarrow> real list list" where
  "companion n a =
     [a] @ butlast (map (\<lambda>i. map (\<lambda>j. if i = j then 1 else 0) [0..<n]) [0..<n])"

definition mat_vec :: "real list list \<Rightarrow> complex list \<Rightarrow> complex list" where
  "mat_vec A x = map (\<lambda>row. sum_list (map2 (\<lambda>a c. of_real a * c) row x)) A"

definition eigenvalues :: "real list list \<Rightarrow> complex set" where
  "eigenvalues A =
     {l. \<exists>x. length x = length A \<and> (\<exists>c \<in> set x. c \<noteq> 0) \<and> mat_vec A x = map (\<lambda>c. l * c) x}"

definition compute_growth :: "Infection \<Rightarrow> npfloat list \<Rightarrow> error + real" where
  "compute_growth self a =
     (if length a \<noteq> days self then Inl ValueError
      else if days self = 0 then Inl LinAlgError
      else if \<not> list_all is_fin a then Inl LinAlgError
      else Inr (Max (cmod ` eigenvalues (companion (days self) (map the_fin a)))))"

definition get_r_and_growth :: "Infection \<Rightarrow> error + (npfloat \<times> real)" where
  "get_r_and_growth self =
     (case suppress self of
        Inl e \<Rightarrow> Inl e
      | Inr effective_daily_infectiousness \<Rightarrow>
          (case compute_growth self effective_daily_infectiousness of
             Inl e \<Rightarrow> Inl e
           | Inr growth \<Rightarrow> Inr (fsum effective_daily_infectiousness, (growth - 1) * 100)))"

section \<open>The sweep\<close>

text \<open>
  \<^verbatim>\<open>frange(x, y, jump)\<close>, the values the generator yields, in order. The loop does
  not end for every input (a \<open>jump\<close> that is not positive), so the function is partial:
  \<open>None\<close> is the run that yields for ever.
\<close>

partial_function (option) frange :: "real \<Rightarrow> real \<Rightarrow> real \<Rightarrow> real list option" where
  "frange x y jump =
     (if x \<le> y + 1 / 100000 * jump
      then Option.bind (frange (x + jump) y jump) (\<lambda>r. Some (x # r))
      else Some [])"

text \<open>
  A record of the sweep: the dictionary \<open>d\<close>, with the value of every variable of the
  registry under its id, \<open>r\<close> and \<open>perc\<close>.
\<close>

record Row =
  params :: "(string \<times> real) list"
  r :: npfloat
  perc :: real

text \<open>
  \<^verbatim>\<open>iterate(self, id)\<close>. The loop body, over the values still to come, with the
  instance and the records so far; an exception ends the run. The result holds the
  instance as the run leaves it, since the method assigns to \<open>self\<close>, and the data
  frame as the list of its records. An id the registry does not have raises
  \<open>KeyError\<close>. The generator's values do not depend on the loop body, so they are
  taken first.
\<close>

fun iterate_loop ::
  "Infection \<Rightarrow> string \<Rightarrow> real list \<Rightarrow> Row list \<Rightarrow> error + (Infection \<times> Row list)"
where
  "iterate_loop self ident [] data = Inr (self, data)"
| "iterate_loop self ident (x # xs) data =
     (case (if ident = ''r0'' then set_rates self (Some x) None None
            else Inr (setattr self ident x)) of
        Inl e \<Rightarrow> Inl e
      | Inr self' \<Rightarrow>
          (case get_r_and_growth self' of
             Inl e \<Rightarrow> Inl e
           | Inr (r_val, perc_val) \<Rightarrow>
               iterate_loop self' ident xs
                 (data @ [\<lparr>params = map (\<lambda>(k, v). (k, getattr self' k)) variables,
                           r = r_val, perc = perc_val\<rparr>])))"

definition iterate :: "Infection \<Rightarrow> string \<Rightarrow> (error + (Infection \<times> Row list)) option" where
  "iterate self ident =
     (case map_of variables ident of
        None \<Rightarrow> Some (Inl KeyError)
      | Some var \<Rightarrow>
          (case frange (vmin var) (vmax var) (vstep var) of
             None \<Rightarrow> None
           | Some xs \<Rightarrow> Some (iterate_loop self ident xs [])))"

section \<open>The forward simulator\<close>

text \<open>
  \<^verbatim>\<open>_transmit(self, x)\<close>: the product \<^verbatim>\<open>x @ suppressed\<close> of two vectors raises
  \<open>ValueError\<close> unless they are of one length.
\<close>

definition transmit :: "Infection \<Rightarrow> npfloat list \<Rightarrow> error + (npfloat list \<times> npfloat)" where
  "transmit self x =
     (case suppress self of
        Inl e \<Rightarrow> Inl e
      | Inr suppressed \<Rightarrow>
          if length x \<noteq> length suppressed then Inl ValueError
          else Inr (fsum (map2 fmul x suppressed) # butlast x, fsum suppressed))"

text \<open>
  \<^verbatim>\<open>simulate(self, initial_cases, n)\<close>: \<open>initial_cases\<close> is a Python list of
  numbers and \<open>n\<close> a count of steps. \<^verbatim>\<open>np.zeros\<close> raises \<open>ValueError\<close> for a
  negative size, and so does \<^verbatim>\<open>reshape((1, self.days))\<close> for a row that has not
  \<open>days\<close> entries.
\<close>

fun simulate_loop ::
  "Infection \<Rightarrow> nat \<Rightarrow> npfloat list list \<Rightarrow> npfloat list \<Rightarrow>
   error + (npfloat list list \<times> npfloat list)"
where
  "simulate_loop self 0 x rs = Inr (x, rs)"
| "simulate_loop self (Suc n) x rs =
     (case transmit self (last x) of
        Inl e \<Rightarrow> Inl e
      | Inr (new, r_val) \<Rightarrow>
          if length new \<noteq> days self then Inl ValueError
          else simulate_loop self n (x @ [new]) (rs @ [r_val]))"

definition simulate ::
  "Infection \<Rightarrow> real list \<Rightarrow> nat \<Rightarrow> error + (npfloat list list \<times> npfloat list)"
where
  "simulate self initial_cases n =
     (if int (days self) - int (length initial_cases) < 0 then Inl ValueError
      else simulate_loop self n
             [map Fin initial_cases @
              replicate (days self - length initial_cases) (Fin 0)]
             [Fin (r0 self)])"

section \<open>Properties of the parameter set\<close>

lemma fsum_map_Fin: "fsum (map Fin xs) = Fin (sum_list xs)"
  by (induction xs) simp_all

lemma sum_list_scaled:
  "sum_list (map (\<lambda>x. c * x / t) (xs::real list)) = c * sum_list xs / t"
  by (induction xs) (simp_all add: algebra_simps add_divide_distrib)

lemma fresh_eq:
  "fresh = \<lparr>r0 = 2,
      infection_rates = [Fin 0, Fin (1 / 14), Fin (3 / 14), Fin (3 / 7), Fin (4 / 7),
                       Fin (3 / 7), Fin (3 / 14), Fin (1 / 14)],
      symptoms = [Fin 0, Fin 0, Fin 0, Fin 0, Fin 10, Fin 20, Fin 20, Fin 10],
      days = 8, testing_rate = 50, testing_delay = 3, isolation_effectivity = 90,
      tracing_rate = 0, tracing_delay = 1, asymptomatic_inf = 20\<rparr>"
  by (simp add: fresh_def Infection_init_def variables_def setattr_def set_rates_def
      Infection_class_def)

text \<open>
  Claim C1. For a positive \<open>r0\<close>, a raw infection-rate list whose sum is not zero and a
  symptom list (a list that is not empty: the empty one counts as omitted),
  \<^verbatim>\<open>set_rates(r0, raw, symptoms)\<close> returns, and leaves an instance in which \<open>r0\<close> is
  the given one, \<open>infection_rates\<close> is \<open>r0 * raw[i] / sum(raw)\<close> entry by entry,
  \<open>days\<close> is the length of that profile, \<open>symptoms\<close> is the given list unchanged,
  and every other attribute is as before. The stored profile sums to \<open>r0\<close> (exactly,
  finite arithmetic being exact here).
\<close>

theorem set_rates_normalizes:
  assumes "0 < c" and "sum_list raw \<noteq> 0" and "sy \<noteq> []"
  shows "set_rates self (Some c) (Some raw) (Some sy) =
           Inr (self\<lparr>r0 := c,
                      infection_rates := map (\<lambda>x. Fin (c * x / sum_list raw)) raw,
                      days := length raw,
                      symptoms := map Fin sy\<rparr>)
         \<and> fsum (map (\<lambda>x. Fin (c * x / sum_list raw)) raw) = Fin c"
proof -
  from assms(2) obtain x xs where raw: "raw = x # xs" by (cases raw) auto
  from assms(3) obtain y ys where sy: "sy = y # ys" by (cases sy) auto
  have scaled: "map (\<lambda>x. fdiv (fmul (Fin c) x) (fsum (map Fin raw))) (map Fin raw)
                = map (\<lambda>x. Fin (c * x / sum_list raw)) raw"
    using assms(2) by (simp add: fsum_map_Fin)
  have "set_rates self (Some c) (Some raw) (Some sy) =
          Inr (self\<lparr>r0 := c,
                infection_rates :=
                  map (\<lambda>x. fdiv (fmul (Fin c) x) (fsum (map Fin raw))) (map Fin raw),
                days := length raw, symptoms := map Fin sy\<rparr>)"
    using assms(1) unfolding set_rates_def raw sy by (simp add: Let_def)
  moreover have "fsum (map (\<lambda>x. Fin (c * x / sum_list raw)) raw) = Fin c"
    using assms(2) fsum_map_Fin [of "map (\<lambda>x. c * x / sum_list raw) raw"]
    by (simp add: sum_list_scaled o_def)
  ultimately show ?thesis by (simp only: scaled)
qed

theorem set_rates_normalizes_witness:
  "set_rates fresh (Some 3) (Some [1, 3]) (Some [10, 20]) =
     Inr (fresh\<lparr>r0 := 3, infection_rates := [Fin (3 / 4), Fin (9 / 4)], days := 2,
                 symptoms := [Fin 10, Fin 20]\<rparr>)
   \<and> fsum [Fin (3 / 4), Fin (9 / 4)] = Fin 3"
  using set_rates_normalizes [of 3 "[1, 3]" "[10, 20]" fresh] by simp

text \<open>
  Claim C10. \<^verbatim>\<open>Infection()\<close> returns an instance whose scalar attributes are the
  defaults of the registry (\<open>testing_rate\<close> 50, \<open>testing_delay\<close> 3,
  \<open>isolation_effectivity\<close> 90, \<open>tracing_rate\<close> 0, \<open>tracing_delay\<close> 1,
  \<open>asymptomatic_inf\<close> 20) and whose \<open>r0\<close> is the registry's 2 and not the 3 of the
  class; its profile is \<open>[0, 1, 3, 6, 8, 6, 3, 1]\<close> scaled by \<open>2 / 28\<close>, which sums to
  2, and \<open>days\<close> is 8.
\<close>

theorem Infection_init_defaults:
  "Infection_init =
     Inr \<lparr>r0 = 2,
          infection_rates = map (\<lambda>x. Fin (2 * x / 28)) [0, 1, 3, 6, 8, 6, 3, 1],
          symptoms = map Fin [0, 0, 0, 0, 10, 20, 20, 10],
          days = 8, testing_rate = 50, testing_delay = 3, isolation_effectivity = 90,
          tracing_rate = 0, tracing_delay = 1, asymptomatic_inf = 20\<rparr>
   \<and> fsum (map (\<lambda>x. Fin (2 * x / 28)) [0, 1, 3, 6, 8, 6, 3, 1]) = Fin 2
   \<and> r0 Infection_class = 3"
  by (simp add: Infection_init_def variables_def setattr_def set_rates_def
      Infection_class_def)

text \<open>
  Claim C4 says that \<^verbatim>\<open>set_rates\<close> fails with a domain error when the raw
  infection-rate list sums to zero or a list is empty. It does not: on a fresh instance
  \<^verbatim>\<open>set_rates(2.0, [0, 0, 0])\<close> returns and leaves the profile \<open>[nan, nan, nan]\<close>.
\<close>

theorem set_rates_zero_sum_counterexample:
  "set_rates fresh (Some 2) (Some [0, 0, 0]) None =
     Inr (fresh\<lparr>infection_rates := [NaN, NaN, NaN], days := 3\<rparr>)"
  by (simp add: fresh_eq set_rates_def)

text \<open>
  Claim C4, as the code has it. \<^verbatim>\<open>set_rates\<close> returns for every input: it has no
  check and raises nothing. An empty list, of infection rates or of symptoms, is treated
  as an omitted argument. When the raw infection-rate list is not empty and sums to
  zero, the stored profile has the length of the list and none of its entries is finite
  (each is \<open>nan\<close> or an infinity).
\<close>

theorem set_rates_never_raises:
  "(\<exists>s. set_rates self r_arg i_arg s_arg = Inr s)
   \<and> set_rates self r_arg (Some []) s_arg = set_rates self r_arg None s_arg
   \<and> set_rates self r_arg i_arg (Some []) = set_rates self r_arg i_arg None
   \<and> (raw \<noteq> [] \<longrightarrow> sum_list raw = 0 \<longrightarrow>
        (\<exists>s. set_rates self r_arg (Some raw) s_arg = Inr s
           \<and> length (infection_rates s) = length raw
           \<and> list_all (\<lambda>v. \<not> is_fin v) (infection_rates s)))"
proof (intro conjI impI)
  show "\<exists>s. set_rates self r_arg i_arg s_arg = Inr s"
    by (simp add: set_rates_def Let_def)
  show "set_rates self r_arg (Some []) s_arg = set_rates self r_arg None s_arg"
    by (simp add: set_rates_def)
  show "set_rates self r_arg i_arg (Some []) = set_rates self r_arg i_arg None"
    by (simp add: set_rates_def)
next
  assume ne: "raw \<noteq> []" and zero: "sum_list raw = 0"
  from ne obtain x xs where raw: "raw = x # xs" by (cases raw) auto
  define c where
    "c = (case r_arg of None \<Rightarrow> r0 self | Some v \<Rightarrow> if v = 0 then r0 self else v)"
  have "list_all (\<lambda>v. \<not> is_fin v)
          (map (\<lambda>v. fdiv (fmul (Fin c) v) (fsum (map Fin raw))) (map Fin raw))"
    using zero by (auto simp: fsum_map_Fin list_all_iff inf_of_sign_def)
  then show "\<exists>s. set_rates self r_arg (Some raw) s_arg = Inr s
           \<and> length (infection_rates s) = length raw
           \<and> list_all (\<lambda>v. \<not> is_fin v) (infection_rates s)"
    unfolding set_rates_def c_def raw by (simp add: Let_def)
qed

theorem set_rates_never_raises_witness:
  "(\<exists>s. set_rates fresh (Some 2) (Some [1, -1]) None = Inr s)
   \<and> set_rates fresh (Some 2) (Some []) None = set_rates fresh (Some 2) None None
   \<and> set_rates fresh (Some 2) (Some [1, -1]) (Some []) =
       set_rates fresh (Some 2) (Some [1, -1]) None
   \<and> (\<exists>s. set_rates fresh (Some 2) (Some [1, -1]) None = Inr s
           \<and> length (infection_rates s) = length [1, -1 :: real]
           \<and> list_all (\<lambda>v. \<not> is_fin v) (infection_rates s))"
  using set_rates_never_raises [of fresh "Some 2" "Some [1, -1]" None "[1, -1]"] by simp

section \<open>Properties of the suppression engine\<close>

lemma length_cumsum_from: "length (cumsum_from acc xs) = length xs"
  by (induction xs arbitrary: acc) simp_all

lemma length_cumsum: "length (cumsum xs) = length xs"
  by (simp add: cumsum_def length_cumsum_from split: list.split)

lemma np_mul_same_length:
  "length xs = length ys \<Longrightarrow> np_mul xs ys = Inr (map2 fmul xs ys)"
  by (simp add: np_mul_def)

text \<open>The two multiplier arrays of \<open>suppress\<close>, entry by entry.\<close>

lemma overall_testing_nth:
  assumes td: "0 \<le> testing_delay self" and ne: "symptoms self \<noteq> []"
    and d: "d < days self"
  defines "ts \<equiv> map (\<lambda>c. fsub (Fin 1)
                        (fmul (Fin (testing_rate self / 100 * (isolation_effectivity self / 100))) c))
              (cumsum (effective_symptom_share self))"
  defines "rest \<equiv> int (days self) - int (length (symptoms self)) - testing_delay self"
  defines "full \<equiv> replicate (nat (testing_delay self)) (Fin 1) @ ts @
                    (if 0 < rest then replicate (nat rest) (last ts) else [])"
  shows "d < length full \<and> full ! d = testing_multiplier self d"
proof -
  have len_ts: "length ts = length (symptoms self)"
    by (simp add: ts_def length_cumsum effective_symptom_share_def)
  have ts_ne: "cumsum (effective_symptom_share self) \<noteq> []"
    using ne length_cumsum [of "effective_symptom_share self"]
    by (auto simp: effective_symptom_share_def)
  have len_full: "d < length full"
    using td d len_ts by (auto simp: full_def rest_def)
  show ?thesis
  proof (cases "int d < testing_delay self")
    case True
    then have "d < nat (testing_delay self)" by simp
    then have "full ! d = Fin 1" by (simp add: full_def nth_append)
    with True len_full show ?thesis by (simp add: testing_multiplier_def)
  next
    case False
    define k where "k = nat (int d - testing_delay self)"
    from False td have k: "d = nat (testing_delay self) + k" by (simp add: k_def)
    show ?thesis
    proof (cases "k < length ts")
      case True
      then have "full ! d = ts ! k" by (simp add: full_def nth_append k)
      also have "\<dots> = testing_multiplier self d"
        using True False unfolding testing_multiplier_def k_def [symmetric] ts_def
        by (simp add: Let_def)
      finally show ?thesis using len_full by simp
    next
      case ge: False
      then have pos: "0 < rest" using d k len_ts td by (simp add: rest_def)
      have "k - length ts < nat rest" using d k len_ts td ge by (simp add: rest_def)
      then have "full ! d = last ts" using ge pos by (simp add: full_def nth_append k)
      also have "\<dots> = testing_multiplier self d"
        using ge False ts_ne unfolding testing_multiplier_def k_def [symmetric] ts_def
        by (simp add: Let_def last_map)
      finally show ?thesis using len_full by simp
    qed
  qed
qed

lemma overall_tracing_nth:
  assumes td: "0 \<le> testing_delay self + tracing_delay self" and d: "d < days self"
  defines "tr \<equiv> fsub (Fin 1)
                   (fmul (fmul (fmul (fsum (effective_symptom_share self)) (Fin (testing_rate self / 100)))
                            (Fin (tracing_rate self / 100)))
                      (Fin (isolation_effectivity self / 100)))"
  defines "rest \<equiv> int (days self) - (testing_delay self + tracing_delay self)"
  defines "full \<equiv> replicate (nat (testing_delay self + tracing_delay self)) (Fin 1) @
                    (if 0 < rest then replicate (nat rest) tr else [])"
  shows "d < length full \<and> full ! d = tracing_multiplier self d"
proof (cases "int d < testing_delay self + tracing_delay self")
  case True
  then have "d < nat (testing_delay self + tracing_delay self)" by simp
  then show ?thesis using True by (simp add: full_def nth_append tracing_multiplier_def)
next
  case False
  with d td have pos: "0 < rest" and k: "d - nat (testing_delay self + tracing_delay self) < nat rest"
    by (simp_all add: rest_def)
  from False td have nl: "\<not> d < nat (testing_delay self + tracing_delay self)" by simp
  have "d < length full" using pos d td by (simp add: full_def rest_def)
  moreover have "full ! d = tr" using pos k nl by (simp add: full_def nth_append)
  ultimately show ?thesis using False by (simp add: tracing_multiplier_def tr_def)
qed

lemma suppress_effective:
  assumes len: "days self = length (infection_rates self)"
    and td: "0 \<le> testing_delay self"
    and tt: "0 \<le> testing_delay self + tracing_delay self"
    and ne: "symptoms self \<noteq> []"
  shows "suppress self = Inr (effective_infectiousness self)"
proof -
  define ts where "ts = map (\<lambda>c. fsub (Fin 1)
                        (fmul (Fin (testing_rate self / 100 * (isolation_effectivity self / 100))) c))
              (cumsum (effective_symptom_share self))"
  define rest where "rest = int (days self) - int (length (symptoms self)) - testing_delay self"
  define full where "full = replicate (nat (testing_delay self)) (Fin 1) @ ts @
                    (if 0 < rest then replicate (nat rest) (last ts) else [])"
  define tr where "tr = fsub (Fin 1)
                   (fmul (fmul (fmul (fsum (effective_symptom_share self)) (Fin (testing_rate self / 100)))
                            (Fin (tracing_rate self / 100)))
                      (Fin (isolation_effectivity self / 100)))"
  define rest2 where "rest2 = int (days self) - (testing_delay self + tracing_delay self)"
  define full2 where "full2 = replicate (nat (testing_delay self + tracing_delay self)) (Fin 1) @
                    (if 0 < rest2 then replicate (nat rest2) tr else [])"
  define n where "n = length (infection_rates self)"
  have A: "\<And>d. d < n \<Longrightarrow> d < length full \<and> full ! d = testing_multiplier self d"
    using overall_testing_nth [OF td ne] len unfolding full_def ts_def rest_def n_def by simp
  have B: "\<And>d. d < n \<Longrightarrow> d < length full2 \<and> full2 ! d = tracing_multiplier self d"
    using overall_tracing_nth [OF tt] len unfolding full2_def tr_def rest2_def n_def by simp
  have lf: "n \<le> length full"
  proof (cases n)
    case (Suc m) with A [of m] show ?thesis by simp
  qed simp
  have lf2: "n \<le> length full2"
  proof (cases n)
    case (Suc m) with B [of m] show ?thesis by simp
  qed simp
  have ts_ne: "ts \<noteq> []"
    using ne length_cumsum [of "effective_symptom_share self"]
    by (auto simp: ts_def effective_symptom_share_def)
  have unfold: "suppress self =
      (case np_mul (infection_rates self) (take n full) of
         Inl e \<Rightarrow> Inl e | Inr p \<Rightarrow> np_mul p (take n full2))"
    using td tt ts_ne
    unfolding suppress_def effective_symptom_share_def [symmetric] Let_def
      ts_def [symmetric] rest_def [symmetric] full_def [symmetric] tr_def [symmetric]
      rest2_def [symmetric] full2_def [symmetric] n_def [symmetric]
    by simp
  have m1: "np_mul (infection_rates self) (take n full) = Inr (map2 fmul (infection_rates self) (take n full))"
    using lf by (intro np_mul_same_length) (simp add: n_def)
  have m2: "np_mul (map2 fmul (infection_rates self) (take n full)) (take n full2)
            = Inr (map2 fmul (map2 fmul (infection_rates self) (take n full)) (take n full2))"
    using lf lf2 by (intro np_mul_same_length) (simp add: n_def)
  have "map2 fmul (map2 fmul (infection_rates self) (take n full)) (take n full2)
        = effective_infectiousness self"
  proof (rule nth_equalityI)
    show "length (map2 fmul (map2 fmul (infection_rates self) (take n full)) (take n full2))
          = length (effective_infectiousness self)"
      using lf lf2 len by (simp add: n_def effective_infectiousness_def)
  next
    fix i assume "i < length (map2 fmul (map2 fmul (infection_rates self) (take n full)) (take n full2))"
    then have i: "i < n" using lf lf2 by (simp add: n_def)
    with A [of i] B [of i] lf lf2 len
    show "map2 fmul (map2 fmul (infection_rates self) (take n full)) (take n full2) ! i
          = effective_infectiousness self ! i"
      by (simp add: n_def effective_infectiousness_def)
  qed
  with unfold m1 m2 show ?thesis by simp
qed


text \<open>
  Claim C2. For an instance whose \<open>days\<close> is the length of its infection profile, whose
  delays are not negative and whose symptom profile is not empty, \<^verbatim>\<open>suppress\<close>
  returns, over exactly \<open>days\<close> entries, the product day by day of the stored profile,
  the testing multiplier and the tracing multiplier. The testing multiplier is \<open>1\<close> on
  the first \<open>testing_delay\<close> days, then \<open>1 - (testing_rate/100) *
  (isolation_effectivity/100) * c\<close> with \<open>c\<close> running through the cumulative sums of
  the effective symptom shares, and after the last of these the last one again. The
  tracing multiplier is \<open>1\<close> on the first \<open>testing_delay + tracing_delay\<close> days and
  then \<open>1 - sum(shares) * (testing_rate/100) * (tracing_rate/100) *
  (isolation_effectivity/100)\<close>. A share is \<open>symptoms[d] / ((100 - sum(symptoms)) *
  (asymptomatic_inf/100) + sum(symptoms))\<close>.
\<close>

theorem suppress_is_specified_product:
  assumes "days self = length (infection_rates self)"
    and "0 \<le> testing_delay self"
    and "0 \<le> testing_delay self + tracing_delay self"
    and "symptoms self \<noteq> []"
  shows "suppress self = Inr (effective_infectiousness self)
         \<and> length (effective_infectiousness self) = days self"
  using suppress_effective [OF assms] by (simp add: effective_infectiousness_def)

lemma fresh_suppress:
  "suppress fresh =
     Inr [Fin 0, Fin (1 / 14), Fin (3 / 14), Fin (3 / 7), Fin (4 / 7), Fin (3 / 7),
          Fin (3 / 14), Fin (127 / 1904)]"
  by (simp add: fresh_eq suppress_def cumsum_def fsub_def np_mul_def Let_def)

theorem suppress_is_specified_product_witness:
  "suppress fresh =
     Inr [Fin 0, Fin (1 / 14), Fin (3 / 14), Fin (3 / 7), Fin (4 / 7), Fin (3 / 7),
          Fin (3 / 14), Fin (127 / 1904)]
   \<and> effective_infectiousness fresh =
     [Fin 0, Fin (1 / 14), Fin (3 / 14), Fin (3 / 7), Fin (4 / 7), Fin (3 / 7),
      Fin (3 / 14), Fin (127 / 1904)]
   \<and> length (effective_infectiousness fresh) = days fresh"
proof -
  have "days fresh = length (infection_rates fresh)" "0 \<le> testing_delay fresh"
    "0 \<le> testing_delay fresh + tracing_delay fresh" "symptoms fresh \<noteq> []"
    by (simp_all add: fresh_eq)
  from suppress_is_specified_product [OF this] fresh_suppress show ?thesis by simp
qed

lemma cumsum_from_Fin_nth:
  "k < length xs \<Longrightarrow>
   cumsum_from (Fin a) (map Fin xs) ! k = Fin (a + sum_list (take (Suc k) xs))"
proof (induction xs arbitrary: a k)
  case Nil
  then show ?case by simp
next
  case (Cons x xs)
  show ?case
  proof (cases k)
    case 0
    then show ?thesis by simp
  next
    case (Suc j)
    with Cons.prems have "j < length xs" by simp
    from Cons.IH [OF this, of "a + x"] Suc show ?thesis by (simp add: add.assoc)
  qed
qed

lemma cumsum_Fin_nth:
  "k < length xs \<Longrightarrow> cumsum (map Fin xs) ! k = Fin (sum_list (take (Suc k) xs))"
proof (cases xs)
  case Nil
  then show "k < length xs \<Longrightarrow> ?thesis" by simp
next
  case (Cons x ys)
  assume "k < length xs"
  with Cons show ?thesis
    by (cases k) (simp_all add: cumsum_def cumsum_from_Fin_nth)
qed

lemma cumsum_Fin_pick:
  assumes "xs \<noteq> []"
  shows "(if k < length (cumsum (map Fin xs)) then cumsum (map Fin xs) ! k
          else last (cumsum (map Fin xs)))
         = Fin (sum_list (take (Suc (min k (length xs - 1))) xs))"
proof (cases "k < length xs")
  case True
  then have "min k (length xs - 1) = k" by simp
  with True show ?thesis by (simp add: length_cumsum cumsum_Fin_nth)
next
  case False
  with assms have m: "min k (length xs - 1) = length xs - 1" by simp
  from assms have ne: "cumsum (map Fin xs) \<noteq> []"
    using length_cumsum [of "map Fin xs"] by auto
  have "last (cumsum (map Fin xs)) = cumsum (map Fin xs) ! (length xs - 1)"
    using ne by (simp add: last_conv_nth length_cumsum)
  also have "\<dots> = Fin (sum_list (take (Suc (length xs - 1)) xs))"
    using assms by (intro cumsum_Fin_nth) simp
  finally show ?thesis using False m by (simp add: length_cumsum)
qed

lemma sum_list_div: "sum_list (map (\<lambda>x. x / t) (xs::real list)) = sum_list xs / t"
  by (induction xs) (simp_all add: add_divide_distrib)

lemma sum_list_take_bounds:
  assumes "\<forall>x \<in> set xs. 0 \<le> (x::real)"
  shows "0 \<le> sum_list (take j xs) \<and> sum_list (take j xs) \<le> sum_list xs"
proof -
  have a: "0 \<le> sum_list (take j xs)"
    using assms by (intro sum_list_nonneg) (auto dest: in_set_takeD)
  have b: "0 \<le> sum_list (drop j xs)"
    using assms by (intro sum_list_nonneg) (auto dest: in_set_dropD)
  have "sum_list xs = sum_list (take j xs) + sum_list (drop j xs)"
    by (metis append_take_drop_id sum_list_append)
  with a b show ?thesis by simp
qed

text \<open>The effective symptom shares of finite symptoms, when the denominator is not zero.\<close>

lemma effective_symptom_share_Fin:
  assumes "symptoms self = map Fin sy"
    and "(100 - sum_list sy) * (asymptomatic_inf self / 100) + sum_list sy \<noteq> 0"
  shows "effective_symptom_share self =
           map Fin (map (\<lambda>x. x / ((100 - sum_list sy) * (asymptomatic_inf self / 100)
                                     + sum_list sy)) sy)"
  using assms by (simp add: effective_symptom_share_def fsum_map_Fin fsub_def)

lemma effective_symptom_share_update [simp]:
  "effective_symptom_share (self\<lparr>isolation_effectivity := e\<rparr>) = effective_symptom_share self"
  by (simp add: effective_symptom_share_def)

text \<open>
  The cumulative share a day's testing multiplier uses is finite, and lies between 0
  and 1 when the symptoms are percentages that sum to at most 100.
\<close>

lemma cumulative_share:
  assumes sym: "symptoms self = map Fin sy" and ne: "sy \<noteq> []"
    and den: "(100 - sum_list sy) * (asymptomatic_inf self / 100) + sum_list sy \<noteq> 0"
  shows "\<exists>c. (if k < length (cumsum (effective_symptom_share self))
               then cumsum (effective_symptom_share self) ! k
               else last (cumsum (effective_symptom_share self))) = Fin c
           \<and> ((\<forall>x \<in> set sy. 0 \<le> x) \<and> sum_list sy \<le> 100 \<and> 0 \<le> asymptomatic_inf self
                \<longrightarrow> 0 \<le> c \<and> c \<le> 1)"
proof -
  define t where "t = (100 - sum_list sy) * (asymptomatic_inf self / 100) + sum_list sy"
  define j where "j = Suc (min k (length sy - 1))"
  define c where "c = sum_list (take j sy) / t"
  have sh: "effective_symptom_share self = map Fin (map (\<lambda>x. x / t) sy)"
    using effective_symptom_share_Fin [OF sym den] by (simp add: t_def)
  have "(if k < length (cumsum (effective_symptom_share self))
               then cumsum (effective_symptom_share self) ! k
               else last (cumsum (effective_symptom_share self)))
        = Fin (sum_list (take j (map (\<lambda>x. x / t) sy)))"
    unfolding sh j_def using cumsum_Fin_pick [of "map (\<lambda>x. x / t) sy" k] ne by simp
  also have "sum_list (take j (map (\<lambda>x. x / t) sy)) = c"
    by (simp add: c_def take_map sum_list_div)
  finally have eq: "(if k < length (cumsum (effective_symptom_share self))
               then cumsum (effective_symptom_share self) ! k
               else last (cumsum (effective_symptom_share self))) = Fin c" .
  have "0 \<le> c \<and> c \<le> 1"
    if nn: "\<forall>x \<in> set sy. 0 \<le> x" and le: "sum_list sy \<le> 100" and a: "0 \<le> asymptomatic_inf self"
  proof -
    from sum_list_take_bounds [OF nn, of j]
    have p: "0 \<le> sum_list (take j sy)" "sum_list (take j sy) \<le> sum_list sy" by simp_all
    have "0 \<le> (100 - sum_list sy) * (asymptomatic_inf self / 100)" using le a by simp
    then have "sum_list sy \<le> t" by (simp add: t_def)
    with p den have "0 < t" "sum_list (take j sy) \<le> t" by (simp_all add: t_def)
    with p show ?thesis by (simp add: c_def)
  qed
  with eq show ?thesis by blast
qed

lemma share_sum:
  assumes sym: "symptoms self = map Fin sy"
    and den: "(100 - sum_list sy) * (asymptomatic_inf self / 100) + sum_list sy \<noteq> 0"
  shows "\<exists>c. fsum (effective_symptom_share self) = Fin c
           \<and> ((\<forall>x \<in> set sy. 0 \<le> x) \<and> sum_list sy \<le> 100 \<and> 0 \<le> asymptomatic_inf self
                \<longrightarrow> 0 \<le> c \<and> c \<le> 1)"
proof -
  define t where "t = (100 - sum_list sy) * (asymptomatic_inf self / 100) + sum_list sy"
  have sh: "effective_symptom_share self = map Fin (map (\<lambda>x. x / t) sy)"
    using effective_symptom_share_Fin [OF sym den] by (simp add: t_def)
  have eq: "fsum (effective_symptom_share self) = Fin (sum_list sy / t)"
    unfolding sh by (simp only: fsum_map_Fin sum_list_div)
  have "0 \<le> sum_list sy / t \<and> sum_list sy / t \<le> 1"
    if nn: "\<forall>x \<in> set sy. 0 \<le> x" and le: "sum_list sy \<le> 100" and a: "0 \<le> asymptomatic_inf self"
  proof -
    have p: "0 \<le> sum_list sy" using nn by (intro sum_list_nonneg) auto
    have "0 \<le> (100 - sum_list sy) * (asymptomatic_inf self / 100)" using le a by simp
    then have "sum_list sy \<le> t" by (simp add: t_def)
    with p den have "0 < t" "sum_list sy \<le> t" by (simp_all add: t_def)
    with p show ?thesis by simp
  qed
  with eq show ?thesis by blast
qed


lemma fmul_one [simp]: "fmul x (Fin 1) = x"
  by (cases x) (simp_all add: inf_of_sign_def)

text \<open>The two multipliers of a day as real numbers, as functions of the isolation
  effectivity.\<close>

lemma testing_multiplier_real:
  assumes sym: "symptoms self = map Fin sy" and ne: "sy \<noteq> []"
    and den: "(100 - sum_list sy) * (asymptomatic_inf self / 100) + sum_list sy \<noteq> 0"
  shows "\<exists>c. (\<forall>e. testing_multiplier (self\<lparr>isolation_effectivity := e\<rparr>) d =
                Fin (if int d < testing_delay self then 1
                     else 1 - testing_rate self / 100 * (e / 100) * c))
           \<and> ((\<forall>x \<in> set sy. 0 \<le> x) \<and> sum_list sy \<le> 100 \<and> 0 \<le> asymptomatic_inf self
                \<longrightarrow> 0 \<le> c \<and> c \<le> 1)"
proof -
  from cumulative_share [OF sym ne den, of "nat (int d - testing_delay self)"]
  obtain c where
    pick: "(if nat (int d - testing_delay self) < length (cumsum (effective_symptom_share self))
            then cumsum (effective_symptom_share self) ! nat (int d - testing_delay self)
            else last (cumsum (effective_symptom_share self))) = Fin c"
    and bounds: "(\<forall>x \<in> set sy. 0 \<le> x) \<and> sum_list sy \<le> 100 \<and> 0 \<le> asymptomatic_inf self
                \<longrightarrow> 0 \<le> c \<and> c \<le> 1"
    by blast
  have "testing_multiplier (self\<lparr>isolation_effectivity := e\<rparr>) d =
                Fin (if int d < testing_delay self then 1
                     else 1 - testing_rate self / 100 * (e / 100) * c)" for e
    unfolding testing_multiplier_def Let_def effective_symptom_share_update
    by (simp add: pick fsub_def cong: if_cong)
  with bounds show ?thesis by blast
qed

lemma tracing_multiplier_real:
  assumes sym: "symptoms self = map Fin sy"
    and den: "(100 - sum_list sy) * (asymptomatic_inf self / 100) + sum_list sy \<noteq> 0"
  shows "\<exists>c. (\<forall>e. tracing_multiplier (self\<lparr>isolation_effectivity := e\<rparr>) d =
                Fin (if int d < testing_delay self + tracing_delay self then 1
                     else 1 - c * (testing_rate self / 100) * (tracing_rate self / 100)
                              * (e / 100)))
           \<and> ((\<forall>x \<in> set sy. 0 \<le> x) \<and> sum_list sy \<le> 100 \<and> 0 \<le> asymptomatic_inf self
                \<longrightarrow> 0 \<le> c \<and> c \<le> 1)"
proof -
  from share_sum [OF sym den]
  obtain c where s: "fsum (effective_symptom_share self) = Fin c"
    and bounds: "(\<forall>x \<in> set sy. 0 \<le> x) \<and> sum_list sy \<le> 100 \<and> 0 \<le> asymptomatic_inf self
                \<longrightarrow> 0 \<le> c \<and> c \<le> 1"
    by blast
  have "tracing_multiplier (self\<lparr>isolation_effectivity := e\<rparr>) d =
                Fin (if int d < testing_delay self + tracing_delay self then 1
                     else 1 - c * (testing_rate self / 100) * (tracing_rate self / 100)
                              * (e / 100))" for e
    unfolding tracing_multiplier_def effective_symptom_share_update
    using s by (simp add: fsub_def)
  with bounds show ?thesis by blast
qed

lemma update_same [simp]: "self\<lparr>isolation_effectivity := isolation_effectivity self\<rparr> = self"
  by simp

text \<open>
  Claim C3 says that with \<open>testing_rate = 0\<close>, and likewise with \<open>tracing_rate = 0\<close>,
  every multiplier is \<open>1\<close>, \<^verbatim>\<open>suppress\<close> returns the stored profile and the
  reproduction number is \<open>r0\<close>. The fresh instance has \<open>tracing_rate = 0\<close>, and its
  testing multiplier of day 7 is \<open>127/136\<close>: \<^verbatim>\<open>suppress\<close> does not return the stored
  profile, and the sum of what it returns is \<open>3799/1904\<close>, not the \<open>r0\<close> of 2. With
  \<open>testing_rate = 0\<close> the claim fails where the share denominator is zero (no
  symptoms at all and \<open>asymptomatic_inf = 0\<close>): the shares are \<open>nan\<close>, and so are
  the entries of the result from day \<open>testing_delay\<close> on.
\<close>

theorem no_intervention_identity_counterexample:
  "tracing_rate fresh = 0
   \<and> suppress fresh \<noteq> Inr (infection_rates fresh)
   \<and> testing_multiplier fresh 7 = Fin (127 / 136)
   \<and> map_sum id fsum (suppress fresh) = Inr (Fin (3799 / 1904))
   \<and> r0 fresh = 2
   \<and> testing_rate (fresh\<lparr>testing_rate := 0, asymptomatic_inf := 0,
                           symptoms := [Fin 0, Fin 0]\<rparr>) = 0
   \<and> suppress (fresh\<lparr>testing_rate := 0, asymptomatic_inf := 0, symptoms := [Fin 0, Fin 0]\<rparr>)
       = Inr [Fin 0, Fin (1 / 14), Fin (3 / 14), NaN, NaN, NaN, NaN, NaN]"
proof (intro conjI)
  show "tracing_rate fresh = 0" "r0 fresh = 2" by (simp_all add: fresh_eq)
  show "suppress fresh \<noteq> Inr (infection_rates fresh)"
    by (simp add: fresh_suppress) (simp add: fresh_eq)
  show "testing_multiplier fresh 7 = Fin (127 / 136)"
    by (simp add: fresh_eq testing_multiplier_def effective_symptom_share_def cumsum_def
        fsub_def Let_def)
  show "map_sum id fsum (suppress fresh) = Inr (Fin (3799 / 1904))"
    by (simp add: fresh_suppress)
  show "testing_rate (fresh\<lparr>testing_rate := 0, asymptomatic_inf := 0,
                           symptoms := [Fin 0, Fin 0]\<rparr>) = 0" by simp
  show "suppress (fresh\<lparr>testing_rate := 0, asymptomatic_inf := 0, symptoms := [Fin 0, Fin 0]\<rparr>)
       = Inr [Fin 0, Fin (1 / 14), Fin (3 / 14), NaN, NaN, NaN, NaN, NaN]"
    by (simp add: fresh_eq suppress_def cumsum_def fsub_def np_mul_def Let_def)
qed

text \<open>
  Claim C3, as the code has it. Take an instance whose \<open>days\<close> is the length of its
  infection profile, whose delays are not negative, whose symptom profile is finite and
  not empty, and whose share denominator \<open>(100 - sum(symptoms)) * (asymptomatic_inf/100)
  + sum(symptoms)\<close> is not zero. With \<open>testing_rate = 0\<close> every testing and tracing
  multiplier is \<open>1\<close>, \<^verbatim>\<open>suppress\<close> returns exactly the stored profile, and, when
  that profile is finite, not empty and sums to \<open>r0\<close>, \<^verbatim>\<open>get_r_and_growth\<close> returns
  \<open>r0\<close> as the reproduction number. With \<open>tracing_rate = 0\<close> the tracing multipliers
  are \<open>1\<close>, and \<^verbatim>\<open>suppress\<close> returns the stored profile times the testing
  multipliers, day by day.
\<close>

theorem no_suppression_when_rate_zero:
  assumes len: "days self = length (infection_rates self)"
    and td: "0 \<le> testing_delay self"
    and tt: "0 \<le> testing_delay self + tracing_delay self"
    and sym: "symptoms self = map Fin sy" and ne: "sy \<noteq> []"
    and den: "(100 - sum_list sy) * (asymptomatic_inf self / 100) + sum_list sy \<noteq> 0"
  shows "(testing_rate self = 0 \<longrightarrow>
            (\<forall>d. testing_multiplier self d = Fin 1 \<and> tracing_multiplier self d = Fin 1)
            \<and> suppress self = Inr (infection_rates self)
            \<and> (0 < days self \<and> list_all is_fin (infection_rates self)
                 \<and> fsum (infection_rates self) = Fin (r0 self)
               \<longrightarrow> (\<exists>p. get_r_and_growth self = Inr (Fin (r0 self), p))))
       \<and> (tracing_rate self = 0 \<longrightarrow>
            (\<forall>d. tracing_multiplier self d = Fin 1)
            \<and> suppress self =
                Inr (map (\<lambda>d. fmul (infection_rates self ! d) (testing_multiplier self d))
                       [0..<days self]))"
proof (intro conjI impI)
  have sne: "symptoms self \<noteq> []" using sym ne by simp
  note eff = suppress_effective [OF len td tt sne]
  {
    assume z: "testing_rate self = 0"
    have T: "testing_multiplier self d = Fin 1" for d
    proof -
      from testing_multiplier_real [OF sym ne den, of d] obtain c where
        "\<forall>e. testing_multiplier (self\<lparr>isolation_effectivity := e\<rparr>) d =
                Fin (if int d < testing_delay self then 1
                     else 1 - testing_rate self / 100 * (e / 100) * c)" by blast
      from this [rule_format, of "isolation_effectivity self"] z show ?thesis by simp
    qed
    have R: "tracing_multiplier self d = Fin 1" for d
    proof -
      from tracing_multiplier_real [OF sym den, of d] obtain c where
        "\<forall>e. tracing_multiplier (self\<lparr>isolation_effectivity := e\<rparr>) d =
                Fin (if int d < testing_delay self + tracing_delay self then 1
                     else 1 - c * (testing_rate self / 100) * (tracing_rate self / 100)
                              * (e / 100))" by blast
      from this [rule_format, of "isolation_effectivity self"] z show ?thesis by simp
    qed
    from T R show "\<forall>d. testing_multiplier self d = Fin 1 \<and> tracing_multiplier self d = Fin 1"
      by simp
    have "effective_infectiousness self = map (\<lambda>d. infection_rates self ! d) [0..<days self]"
      by (simp add: effective_infectiousness_def T R)
    also have "\<dots> = infection_rates self" by (simp add: len map_nth)
    finally show s: "suppress self = Inr (infection_rates self)" using eff by simp
    {
      assume "0 < days self \<and> list_all is_fin (infection_rates self)
                 \<and> fsum (infection_rates self) = Fin (r0 self)"
      then show "\<exists>p. get_r_and_growth self = Inr (Fin (r0 self), p)"
        by (simp add: get_r_and_growth_def s compute_growth_def len)
    }
  }
  {
    assume z: "tracing_rate self = 0"
    have R: "tracing_multiplier self d = Fin 1" for d
    proof -
      from tracing_multiplier_real [OF sym den, of d] obtain c where
        "\<forall>e. tracing_multiplier (self\<lparr>isolation_effectivity := e\<rparr>) d =
                Fin (if int d < testing_delay self + tracing_delay self then 1
                     else 1 - c * (testing_rate self / 100) * (tracing_rate self / 100)
                              * (e / 100))" by blast
      from this [rule_format, of "isolation_effectivity self"] z show ?thesis by simp
    qed
    then show "\<forall>d. tracing_multiplier self d = Fin 1" by simp
    show "suppress self =
                Inr (map (\<lambda>d. fmul (infection_rates self ! d) (testing_multiplier self d))
                       [0..<days self])"
      using eff by (simp add: effective_infectiousness_def R)
  }
qed


theorem no_suppression_when_rate_zero_witness:
  "(\<forall>d. testing_multiplier (fresh\<lparr>testing_rate := 0\<rparr>) d = Fin 1
        \<and> tracing_multiplier (fresh\<lparr>testing_rate := 0\<rparr>) d = Fin 1)
   \<and> suppress (fresh\<lparr>testing_rate := 0\<rparr>) = Inr (infection_rates (fresh\<lparr>testing_rate := 0\<rparr>))
   \<and> (\<exists>p. get_r_and_growth (fresh\<lparr>testing_rate := 0\<rparr>) = Inr (Fin 2, p))
   \<and> tracing_rate (fresh\<lparr>testing_rate := 0\<rparr>) = 0"
proof -
  have h: "days (fresh\<lparr>testing_rate := 0\<rparr>) = length (infection_rates (fresh\<lparr>testing_rate := 0\<rparr>))"
    "0 \<le> testing_delay (fresh\<lparr>testing_rate := 0\<rparr>)"
    "0 \<le> testing_delay (fresh\<lparr>testing_rate := 0\<rparr>) + tracing_delay (fresh\<lparr>testing_rate := 0\<rparr>)"
    "symptoms (fresh\<lparr>testing_rate := 0\<rparr>) = map Fin [0, 0, 0, 0, 10, 20, 20, 10]"
    "[0, 0, 0, 0, 10, 20, 20, 10] \<noteq> ([] :: real list)"
    "(100 - sum_list [0, 0, 0, 0, 10, 20, 20, 10]) * (asymptomatic_inf (fresh\<lparr>testing_rate := 0\<rparr>) / 100)
       + sum_list [0, 0, 0, 0, 10, 20, 20, 10] \<noteq> 0"
    by (simp_all add: fresh_eq)
  have g: "testing_rate (fresh\<lparr>testing_rate := 0\<rparr>) = 0"
    "0 < days (fresh\<lparr>testing_rate := 0\<rparr>)"
    "list_all is_fin (infection_rates (fresh\<lparr>testing_rate := 0\<rparr>))"
    "fsum (infection_rates (fresh\<lparr>testing_rate := 0\<rparr>)) = Fin (r0 (fresh\<lparr>testing_rate := 0\<rparr>))"
    "r0 (fresh\<lparr>testing_rate := 0\<rparr>) = 2"
    "tracing_rate (fresh\<lparr>testing_rate := 0\<rparr>) = 0"
    by (simp_all add: fresh_eq)
  from no_suppression_when_rate_zero [OF h] g show ?thesis by simp
qed

text \<open>One day's term of the reproduction number does not grow with the isolation
  effectivity.\<close>

lemma day_term_antitone:
  assumes sym: "symptoms self = map Fin sy" and ne: "sy \<noteq> []"
    and den: "(100 - sum_list sy) * (asymptomatic_inf self / 100) + sum_list sy \<noteq> 0"
    and nn: "\<forall>x \<in> set sy. 0 \<le> x" and le: "sum_list sy \<le> 100"
    and a: "0 \<le> asymptomatic_inf self"
    and tr: "0 \<le> testing_rate self" "testing_rate self \<le> 100"
    and trr: "0 \<le> tracing_rate self" "tracing_rate self \<le> 100"
    and e: "0 \<le> e1" "e1 \<le> e2" "e2 \<le> 100"
    and v: "0 \<le> v"
  shows "\<exists>t1 t2.
           fmul (fmul (Fin v) (testing_multiplier (self\<lparr>isolation_effectivity := e1\<rparr>) d))
             (tracing_multiplier (self\<lparr>isolation_effectivity := e1\<rparr>) d) = Fin t1
         \<and> fmul (fmul (Fin v) (testing_multiplier (self\<lparr>isolation_effectivity := e2\<rparr>) d))
             (tracing_multiplier (self\<lparr>isolation_effectivity := e2\<rparr>) d) = Fin t2
         \<and> t2 \<le> t1"
proof -
  from testing_multiplier_real [OF sym ne den, of d] nn le a obtain c where
    T: "\<And>e. testing_multiplier (self\<lparr>isolation_effectivity := e\<rparr>) d =
                Fin (if int d < testing_delay self then 1
                     else 1 - testing_rate self / 100 * (e / 100) * c)"
    and c: "0 \<le> c" "c \<le> 1" by blast
  from tracing_multiplier_real [OF sym den, of d] nn le a obtain s where
    R: "\<And>e. tracing_multiplier (self\<lparr>isolation_effectivity := e\<rparr>) d =
                Fin (if int d < testing_delay self + tracing_delay self then 1
                     else 1 - s * (testing_rate self / 100) * (tracing_rate self / 100)
                              * (e / 100))"
    and s: "0 \<le> s" "s \<le> 1" by blast
  define p where "p = testing_rate self / 100"
  define q where "q = tracing_rate self / 100"
  define f where "f e = (if int d < testing_delay self then 1 else 1 - p * (e / 100) * c)" for e
  define g where
    "g e = (if int d < testing_delay self + tracing_delay self then 1 else 1 - s * p * q * (e / 100))"
    for e
  have p: "0 \<le> p" "p \<le> 1" and q: "0 \<le> q" "q \<le> 1" using tr trr by (simp_all add: p_def q_def)
  have pc: "0 \<le> p * c" "p * c \<le> 1"
    using p c by (simp_all add: mult_le_one)
  have spq: "0 \<le> s * p * q" "s * p * q \<le> 1"
    using p q s by (simp_all add: mult_le_one)
  have u: "0 \<le> e1 / 100" "e1 / 100 \<le> e2 / 100" "e2 / 100 \<le> 1" using e by simp_all
  have lin: "0 \<le> 1 - k * y \<and> 1 - k * y \<le> 1 - k * x"
    if "0 \<le> k" "k \<le> 1" "0 \<le> x" "x \<le> y" "y \<le> 1" for k x y :: real
  proof -
    have "k * x \<le> k * y" using that by (intro mult_left_mono) simp_all
    moreover have "k * y \<le> 1" using that by (intro mult_le_one) simp_all
    ultimately show ?thesis by simp
  qed
  have f: "0 \<le> f e2" "f e2 \<le> f e1"
    using lin [OF pc u] by (simp_all add: f_def mult.assoc mult.commute mult.left_commute)
  have g: "0 \<le> g e2" "g e2 \<le> g e1"
    using lin [OF spq u] by (simp_all add: g_def)
  have A: "v * f e2 \<le> v * f e1" using f(2) v by (rule mult_left_mono)
  have "0 \<le> f e1" using f by simp
  then have C: "0 \<le> v * f e1" using v by simp
  have "v * f e2 * g e2 \<le> v * f e1 * g e1"
    by (rule mult_mono [OF A g(2) C g(1)])
  moreover have "fmul (fmul (Fin v) (testing_multiplier (self\<lparr>isolation_effectivity := e\<rparr>) d))
             (tracing_multiplier (self\<lparr>isolation_effectivity := e\<rparr>) d) = Fin (v * f e * g e)" for e
    by (simp add: T R f_def g_def p_def q_def)
  ultimately show ?thesis by blast
qed


lemma get_r_and_growth_finite:
  assumes "suppress self = Inr (map Fin xs)" and "length xs = days self" and "0 < days self"
  shows "\<exists>p. get_r_and_growth self = Inr (Fin (sum_list xs), p)"
  using assms
  by (simp add: get_r_and_growth_def compute_growth_def fsum_map_Fin list_all_iff)

lemma r_antitone_nonzero_denominator:
  assumes len: "days self = length (infection_rates self)" and pos: "0 < days self"
    and inf: "infection_rates self = map Fin ir" and irn: "\<forall>x \<in> set ir. 0 \<le> x"
    and sym: "symptoms self = map Fin sy" and ne: "sy \<noteq> []"
    and nn: "\<forall>x \<in> set sy. 0 \<le> x" and le: "sum_list sy \<le> 100"
    and a: "0 \<le> asymptomatic_inf self" "asymptomatic_inf self \<le> 100"
    and den: "(100 - sum_list sy) * (asymptomatic_inf self / 100) + sum_list sy \<noteq> 0"
    and tr: "0 < testing_rate self" "testing_rate self \<le> 100"
    and trr: "0 \<le> tracing_rate self" "tracing_rate self \<le> 100"
    and td: "0 \<le> testing_delay self" and tt: "0 \<le> tracing_delay self"
    and e: "0 \<le> e1" "e1 \<le> e2" "e2 \<le> 100"
  shows "\<exists>R1 R2 p1 p2.
           get_r_and_growth (self\<lparr>isolation_effectivity := e1\<rparr>) = Inr (Fin R1, p1)
         \<and> get_r_and_growth (self\<lparr>isolation_effectivity := e2\<rparr>) = Inr (Fin R2, p2)
         \<and> R2 \<le> R1"
proof -
  define dterm where
    "dterm e d = fmul (fmul (Fin (ir ! d)) (testing_multiplier (self\<lparr>isolation_effectivity := e\<rparr>) d))
                  (tracing_multiplier (self\<lparr>isolation_effectivity := e\<rparr>) d)" for e d
  define h where "h e d = the_fin (dterm e d)" for e d
  have n: "days self = length ir" using len inf by simp
  have tr0: "0 \<le> testing_rate self" using tr by simp
  have day: "dterm e1 d = Fin (h e1 d) \<and> dterm e2 d = Fin (h e2 d) \<and> h e2 d \<le> h e1 d"
    if "d < length ir" for d
  proof -
    from that irn have "0 \<le> ir ! d" by simp
    from day_term_antitone [OF sym ne den nn le a(1) tr0 tr(2) trr e this, of d]
    show ?thesis unfolding dterm_def [symmetric] h_def by auto
  qed
  have sup: "suppress (self\<lparr>isolation_effectivity := e\<rparr>) = Inr (map Fin (map (h e) [0..<length ir]))"
    if "e = e1 \<or> e = e2" for e
  proof -
    have "suppress (self\<lparr>isolation_effectivity := e\<rparr>)
          = Inr (effective_infectiousness (self\<lparr>isolation_effectivity := e\<rparr>))"
      using len td tt sym ne by (intro suppress_effective) simp_all
    also have "effective_infectiousness (self\<lparr>isolation_effectivity := e\<rparr>)
               = map (dterm e) [0..<length ir]"
      by (simp add: effective_infectiousness_def n inf dterm_def)
    also have "\<dots> = map (\<lambda>d. Fin (h e d)) [0..<length ir]"
      using day that by (intro map_cong) auto
    finally show ?thesis by (simp add: o_def)
  qed
  have "sum_list (map (h e2) [0..<length ir]) \<le> sum_list (map (h e1) [0..<length ir])"
    using day by (intro sum_list_mono) simp
  moreover from get_r_and_growth_finite [OF sup [of e1]] n pos
  obtain p1 where "get_r_and_growth (self\<lparr>isolation_effectivity := e1\<rparr>)
                   = Inr (Fin (sum_list (map (h e1) [0..<length ir])), p1)" by auto
  moreover from get_r_and_growth_finite [OF sup [of e2]] n pos
  obtain p2 where "get_r_and_growth (self\<lparr>isolation_effectivity := e2\<rparr>)
                   = Inr (Fin (sum_list (map (h e2) [0..<length ir])), p2)" by auto
  ultimately show ?thesis by blast
qed

text \<open>Where the share denominator is zero, the shares are \<open>nan\<close>, and the multipliers
  do not depend on the isolation effectivity.\<close>

lemma cumsum_from_NaN: "cumsum_from NaN xs = replicate (length xs) NaN"
  by (induction xs) simp_all

lemma cumsum_NaN: "cumsum (replicate n NaN) = replicate n NaN"
  by (cases n) (simp_all add: cumsum_def cumsum_from_NaN)

lemma fsum_NaN: "0 < n \<Longrightarrow> fsum (replicate n NaN) = NaN"
  by (cases n) simp_all

lemma zero_denominator_shares:
  assumes sym: "symptoms self = map Fin sy"
    and nn: "\<forall>x \<in> set sy. 0 \<le> x" and le: "sum_list sy \<le> 100"
    and a: "0 \<le> asymptomatic_inf self"
    and den: "(100 - sum_list sy) * (asymptomatic_inf self / 100) + sum_list sy = 0"
  shows "effective_symptom_share self = replicate (length sy) NaN"
proof -
  have s0: "0 \<le> sum_list sy" using nn by (intro sum_list_nonneg) auto
  have "0 \<le> (100 - sum_list sy) * (asymptomatic_inf self / 100)" using le a by simp
  with s0 den have z: "sum_list sy = 0" by linarith
  have all0: "x = 0" if "x \<in> set sy" for x
    using that z nn by (simp add: sum_list_nonneg_eq_0_iff)
  have "effective_symptom_share self = map (\<lambda>x. fdiv (Fin x) (Fin 0)) sy"
    using den by (simp add: effective_symptom_share_def sym fsum_map_Fin fsub_def o_def)
  also have "\<dots> = map (\<lambda>x. NaN) sy"
    using all0 by (intro map_cong) simp_all
  finally show ?thesis by (simp add: map_replicate_const)
qed

lemma zero_denominator_same:
  assumes len: "days self = length (infection_rates self)"
    and sym: "symptoms self = map Fin sy" and ne: "sy \<noteq> []"
    and nn: "\<forall>x \<in> set sy. 0 \<le> x" and le: "sum_list sy \<le> 100"
    and a: "0 \<le> asymptomatic_inf self"
    and den: "(100 - sum_list sy) * (asymptomatic_inf self / 100) + sum_list sy = 0"
    and td: "0 \<le> testing_delay self" and tt: "0 \<le> testing_delay self + tracing_delay self"
  shows "get_r_and_growth (self\<lparr>isolation_effectivity := e1\<rparr>)
         = get_r_and_growth (self\<lparr>isolation_effectivity := e2\<rparr>)"
proof -
  from ne have n: "0 < length sy" by simp
  note sh = zero_denominator_shares [OF sym nn le a den]
  have T: "testing_multiplier (self\<lparr>isolation_effectivity := e\<rparr>) d
           = (if int d < testing_delay self then Fin 1 else NaN)" for e d
    using n by (simp add: testing_multiplier_def sh cumsum_NaN fsub_def Let_def)
  have R: "tracing_multiplier (self\<lparr>isolation_effectivity := e\<rparr>) d
           = (if int d < testing_delay self + tracing_delay self then Fin 1 else NaN)" for e d
    using n by (simp add: tracing_multiplier_def sh fsum_NaN fsub_def)
  have E: "effective_infectiousness (self\<lparr>isolation_effectivity := e1\<rparr>)
           = effective_infectiousness (self\<lparr>isolation_effectivity := e2\<rparr>)"
    by (simp add: effective_infectiousness_def T R)
  have S: "suppress (self\<lparr>isolation_effectivity := e\<rparr>)
           = Inr (effective_infectiousness (self\<lparr>isolation_effectivity := e\<rparr>))" for e
    using len td tt sym ne by (intro suppress_effective) simp_all
  show ?thesis by (simp add: get_r_and_growth_def S E compute_growth_def)
qed

text \<open>
  Claim C7. Take an instance within the ranges of the data model: \<open>days\<close> is the length
  of the infection profile and is not zero, the infection profile is finite with no
  negative entry, the symptom profile is finite and not empty with no negative entry and
  a sum of at most 100, the rates are percentages between 0 and 100 with
  \<open>testing_rate > 0\<close>, and the delays are not negative. Take isolation effectivities
  \<open>0 \<le> e1 \<le> e2 \<le> 100\<close>, all other attributes the same. Where the share denominator
  is not zero, \<^verbatim>\<open>get_r_and_growth\<close> returns on both, with finite reproduction
  numbers \<open>R1\<close> and \<open>R2\<close>, and \<open>R2 \<le> R1\<close>. Where it is zero (no symptoms at all
  and \<open>asymptomatic_inf = 0\<close>) the shares are \<open>nan\<close> and the two runs have one and
  the same outcome, so that no reproduction number grows there either.
\<close>

theorem r_antitone_in_isolation_effectivity:
  assumes len: "days self = length (infection_rates self)" and pos: "0 < days self"
    and inf: "infection_rates self = map Fin ir" and irn: "\<forall>x \<in> set ir. 0 \<le> x"
    and sym: "symptoms self = map Fin sy" and ne: "sy \<noteq> []"
    and nn: "\<forall>x \<in> set sy. 0 \<le> x" and le: "sum_list sy \<le> 100"
    and a: "0 \<le> asymptomatic_inf self" "asymptomatic_inf self \<le> 100"
    and tr: "0 < testing_rate self" "testing_rate self \<le> 100"
    and trr: "0 \<le> tracing_rate self" "tracing_rate self \<le> 100"
    and td: "0 \<le> testing_delay self" and tt: "0 \<le> tracing_delay self"
    and e: "0 \<le> e1" "e1 \<le> e2" "e2 \<le> 100"
  shows "((100 - sum_list sy) * (asymptomatic_inf self / 100) + sum_list sy \<noteq> 0 \<longrightarrow>
            (\<exists>R1 R2 p1 p2.
               get_r_and_growth (self\<lparr>isolation_effectivity := e1\<rparr>) = Inr (Fin R1, p1)
             \<and> get_r_and_growth (self\<lparr>isolation_effectivity := e2\<rparr>) = Inr (Fin R2, p2)
             \<and> R2 \<le> R1))
       \<and> ((100 - sum_list sy) * (asymptomatic_inf self / 100) + sum_list sy = 0 \<longrightarrow>
            get_r_and_growth (self\<lparr>isolation_effectivity := e1\<rparr>)
            = get_r_and_growth (self\<lparr>isolation_effectivity := e2\<rparr>))"
proof (intro conjI impI)
  assume "(100 - sum_list sy) * (asymptomatic_inf self / 100) + sum_list sy \<noteq> 0"
  from r_antitone_nonzero_denominator [OF len pos inf irn sym ne nn le a this tr trr td tt e]
  show "\<exists>R1 R2 p1 p2.
               get_r_and_growth (self\<lparr>isolation_effectivity := e1\<rparr>) = Inr (Fin R1, p1)
             \<and> get_r_and_growth (self\<lparr>isolation_effectivity := e2\<rparr>) = Inr (Fin R2, p2)
             \<and> R2 \<le> R1" .
next
  assume z: "(100 - sum_list sy) * (asymptomatic_inf self / 100) + sum_list sy = 0"
  from td tt have "0 \<le> testing_delay self + tracing_delay self" by simp
  from zero_denominator_same [OF len sym ne nn le a(1) z td this]
  show "get_r_and_growth (self\<lparr>isolation_effectivity := e1\<rparr>)
            = get_r_and_growth (self\<lparr>isolation_effectivity := e2\<rparr>)" .
qed

theorem r_antitone_in_isolation_effectivity_witness:
  "(\<exists>R1 R2 p1 p2.
       get_r_and_growth (fresh\<lparr>isolation_effectivity := 50\<rparr>) = Inr (Fin R1, p1)
     \<and> get_r_and_growth (fresh\<lparr>isolation_effectivity := 90\<rparr>) = Inr (Fin R2, p2)
     \<and> R2 \<le> R1)
   \<and> get_r_and_growth (fresh\<lparr>symptoms := [Fin 0, Fin 0], asymptomatic_inf := 0,
                               isolation_effectivity := 50\<rparr>)
     = get_r_and_growth (fresh\<lparr>symptoms := [Fin 0, Fin 0], asymptomatic_inf := 0,
                                 isolation_effectivity := 90\<rparr>)"
proof
  have h: "days fresh = length (infection_rates fresh)" "0 < days fresh"
    "infection_rates fresh = map Fin [0, 1 / 14, 3 / 14, 3 / 7, 4 / 7, 3 / 7, 3 / 14, 1 / 14]"
    "\<forall>x \<in> set [0, 1 / 14, 3 / 14, 3 / 7, 4 / 7, 3 / 7, 3 / 14, 1 / 14 :: real]. 0 \<le> x"
    "symptoms fresh = map Fin [0, 0, 0, 0, 10, 20, 20, 10]"
    "[0, 0, 0, 0, 10, 20, 20, 10] \<noteq> ([] :: real list)"
    "\<forall>x \<in> set [0, 0, 0, 0, 10, 20, 20, 10 :: real]. 0 \<le> x"
    "sum_list [0, 0, 0, 0, 10, 20, 20, 10 :: real] \<le> 100"
    "0 \<le> asymptomatic_inf fresh" "asymptomatic_inf fresh \<le> 100"
    "0 < testing_rate fresh" "testing_rate fresh \<le> 100"
    "0 \<le> tracing_rate fresh" "tracing_rate fresh \<le> 100"
    "0 \<le> testing_delay fresh" "0 \<le> tracing_delay fresh"
    "(0::real) \<le> 50" "(50::real) \<le> 90" "(90::real) \<le> 100"
    by (simp_all add: fresh_eq)
  have d: "(100 - sum_list [0, 0, 0, 0, 10, 20, 20, 10]) * (asymptomatic_inf fresh / 100)
       + sum_list [0, 0, 0, 0, 10, 20, 20, 10] \<noteq> 0"
    by (simp add: fresh_eq)
  from r_antitone_in_isolation_effectivity [OF h] d
  show "\<exists>R1 R2 p1 p2.
       get_r_and_growth (fresh\<lparr>isolation_effectivity := 50\<rparr>) = Inr (Fin R1, p1)
     \<and> get_r_and_growth (fresh\<lparr>isolation_effectivity := 90\<rparr>) = Inr (Fin R2, p2)
     \<and> R2 \<le> R1" by blast
next
  define s0 where "s0 = fresh\<lparr>symptoms := [Fin 0, Fin 0], asymptomatic_inf := 0\<rparr>"
  have h: "days s0 = length (infection_rates s0)" "0 < days s0"
    "infection_rates s0 = map Fin [0, 1 / 14, 3 / 14, 3 / 7, 4 / 7, 3 / 7, 3 / 14, 1 / 14]"
    "\<forall>x \<in> set [0, 1 / 14, 3 / 14, 3 / 7, 4 / 7, 3 / 7, 3 / 14, 1 / 14 :: real]. 0 \<le> x"
    "symptoms s0 = map Fin [0, 0]"
    "[0, 0] \<noteq> ([] :: real list)"
    "\<forall>x \<in> set [0, 0 :: real]. 0 \<le> x"
    "sum_list [0, 0 :: real] \<le> 100"
    "0 \<le> asymptomatic_inf s0" "asymptomatic_inf s0 \<le> 100"
    "0 < testing_rate s0" "testing_rate s0 \<le> 100"
    "0 \<le> tracing_rate s0" "tracing_rate s0 \<le> 100"
    "0 \<le> testing_delay s0" "0 \<le> tracing_delay s0"
    "(0::real) \<le> 50" "(50::real) \<le> 90" "(90::real) \<le> 100"
    by (simp_all add: s0_def fresh_eq)
  have z: "(100 - sum_list [0, 0]) * (asymptomatic_inf s0 / 100) + sum_list [0, 0] = 0"
    by (simp add: s0_def)
  from r_antitone_in_isolation_effectivity [OF h] z
  have "get_r_and_growth (s0\<lparr>isolation_effectivity := 50\<rparr>)
        = get_r_and_growth (s0\<lparr>isolation_effectivity := 90\<rparr>)" by blast
  then show "get_r_and_growth (fresh\<lparr>symptoms := [Fin 0, Fin 0], asymptomatic_inf := 0,
                               isolation_effectivity := 50\<rparr>)
     = get_r_and_growth (fresh\<lparr>symptoms := [Fin 0, Fin 0], asymptomatic_inf := 0,
                                 isolation_effectivity := 90\<rparr>)"
    by (simp add: s0_def)
qed

section \<open>Properties of the growth estimator\<close>

lemma companion_one: "companion (Suc 0) [v] = [[v]]"
  by (simp add: companion_def)

lemma eigenvalues_one: "eigenvalues [[v]] = {of_real v}"
proof (rule set_eqI, rule iffI)
  fix l assume "l \<in> eigenvalues [[v]]"
  then obtain x where x: "length x = 1" "\<exists>c \<in> set x. c \<noteq> 0"
    "mat_vec [[v]] x = map (\<lambda>c. l * c) x"
    by (auto simp: eigenvalues_def)
  from x(1) obtain c where c: "x = [c]" by (cases x) auto
  with x(2,3) have "c \<noteq> 0" "of_real v * c = l * c" by (simp_all add: mat_vec_def)
  then show "l \<in> {of_real v}" by simp
next
  fix l :: complex assume "l \<in> {of_real v}"
  then have "length [1::complex] = length [[v]] \<and> (\<exists>c \<in> set [1::complex]. c \<noteq> 0)
             \<and> mat_vec [[v]] [1] = map (\<lambda>c. l * c) [1]"
    by (simp add: mat_vec_def)
  then show "l \<in> eigenvalues [[v]]" unfolding eigenvalues_def by blast
qed

text \<open>
  Claim C8. When \<open>days\<close> is 1, the matrix \<^verbatim>\<open>compute_growth\<close> builds from a finite
  value \<open>v\<close> is the 1 by 1 matrix \<open>[[v]]\<close>, whose only eigenvalue is \<open>v\<close>, and the
  method returns \<open>\<bar>v\<bar>\<close>; it raises nothing.
\<close>

theorem compute_growth_one_day:
  assumes "days self = 1"
  shows "companion (days self) [v] = [[v]]
         \<and> eigenvalues [[v]] = {of_real v}
         \<and> compute_growth self [Fin v] = Inr \<bar>v\<bar>"
proof -
  have c: "companion (days self) [v] = [[v]]" using assms by (simp add: companion_one)
  have "compute_growth self [Fin v] = Inr (Max (cmod ` eigenvalues (companion (days self) [v])))"
    using assms by (simp add: compute_growth_def)
  then have "compute_growth self [Fin v] = Inr \<bar>v\<bar>"
    by (simp only: c eigenvalues_one) simp
  with c eigenvalues_one show ?thesis by simp
qed

theorem compute_growth_one_day_witness:
  "companion (days (fresh\<lparr>days := 1\<rparr>)) [- 3 / 2] = [[- 3 / 2]]
   \<and> eigenvalues [[- 3 / 2]] = {of_real (- 3 / 2)}
   \<and> compute_growth (fresh\<lparr>days := 1\<rparr>) [Fin (- 3 / 2)] = Inr \<bar>- 3 / 2\<bar>"
proof -
  have "days (fresh\<lparr>days := 1\<rparr>) = 1" by simp
  from compute_growth_one_day [OF this] show ?thesis .
qed

section \<open>Properties of the forward simulator\<close>

lemma suppress_length:
  assumes "suppress self = Inr e" and "days self = length (infection_rates self)"
  shows "length e = days self"
proof -
  define n where "n = length (infection_rates self)"
  define ts where "ts = map (\<lambda>c. fsub (Fin 1)
        (fmul (Fin (testing_rate self / 100 * (isolation_effectivity self / 100))) c))
        (cumsum (effective_symptom_share self))"
  define rest where "rest = int (days self) - int (length (symptoms self)) - testing_delay self"
  define full where "full = replicate (nat (testing_delay self)) (Fin 1) @ ts @
                    (if 0 < rest then replicate (nat rest) (last ts) else [])"
  define tr where "tr = fsub (Fin 1)
                   (fmul (fmul (fmul (fsum (effective_symptom_share self)) (Fin (testing_rate self / 100)))
                            (Fin (tracing_rate self / 100)))
                      (Fin (isolation_effectivity self / 100)))"
  define rest2 where "rest2 = int (days self) - (testing_delay self + tracing_delay self)"
  define full2 where "full2 = replicate (nat (testing_delay self + tracing_delay self)) (Fin 1) @
                    (if 0 < rest2 then replicate (nat rest2) tr else [])"
  have lts: "length ts = length (symptoms self)"
    by (simp add: ts_def length_cumsum effective_symptom_share_def)
  from assms(1) have td: "0 \<le> testing_delay self" and tt: "0 \<le> testing_delay self + tracing_delay self"
    by (auto simp: suppress_def Let_def split: if_splits)
  from assms(1) td tt have run: "(case np_mul (infection_rates self) (take n full) of
         Inl e \<Rightarrow> Inl e | Inr p \<Rightarrow> np_mul p (take n full2)) = Inr e"
    unfolding suppress_def effective_symptom_share_def [symmetric] Let_def
      ts_def [symmetric] rest_def [symmetric] full_def [symmetric] tr_def [symmetric]
      rest2_def [symmetric] full2_def [symmetric] n_def [symmetric]
    by (simp split: if_splits)
  have l1: "n \<le> length full" using td lts assms(2) by (auto simp: full_def rest_def n_def)
  have l2: "n \<le> length full2" using tt assms(2) by (auto simp: full2_def rest2_def n_def)
  from run l1 l2 have "e = map2 fmul (map2 fmul (infection_rates self) (take n full)) (take n full2)"
    by (simp add: np_mul_def n_def)
  then show ?thesis using l1 l2 assms(2) by (simp add: n_def)
qed

lemma transmit_ok:
  assumes "suppress self = Inr e" and "length x = length e"
  shows "transmit self x = Inr (fsum (map2 fmul x e) # butlast x, fsum e)"
  using assms by (simp add: transmit_def)

lemma simulate_loop_ok:
  assumes sup: "suppress self = Inr e" and le: "length e = days self" and pos: "0 < days self"
  shows "x \<noteq> [] \<Longrightarrow> length (last x) = days self \<Longrightarrow>
         \<exists>hist. simulate_loop self n x rs = Inr (hist, rs @ replicate n (fsum e))
              \<and> length hist = length x + n \<and> take (length x) hist = x
              \<and> (list_all (\<lambda>row. length row = days self) x
                   \<longrightarrow> list_all (\<lambda>row. length row = days self) hist)"
proof (induction n arbitrary: x rs)
  case 0
  then show ?case by simp
next
  case (Suc n)
  define new where "new = fsum (map2 fmul (last x) e) # butlast (last x)"
  have t: "transmit self (last x) = Inr (new, fsum e)"
    using transmit_ok [OF sup] Suc.prems(2) le by (simp add: new_def)
  have ln: "length new = days self" using Suc.prems(2) pos by (simp add: new_def)
  from Suc.IH [of "x @ [new]" "rs @ [fsum e]"] ln
  obtain hist where h: "simulate_loop self n (x @ [new]) (rs @ [fsum e])
        = Inr (hist, (rs @ [fsum e]) @ replicate n (fsum e))"
      "length hist = length (x @ [new]) + n" "take (length (x @ [new])) hist = x @ [new]"
      "list_all (\<lambda>row. length row = days self) (x @ [new])
                   \<longrightarrow> list_all (\<lambda>row. length row = days self) hist"
    by auto
  have "take (length x) hist = take (length x) (take (length (x @ [new])) hist)"
    by (simp add: min_def)
  also have "\<dots> = x" by (simp only: h(3)) simp
  finally have tk: "take (length x) hist = x" .
  have "simulate_loop self (Suc n) x rs = Inr (hist, rs @ replicate (Suc n) (fsum e))"
    using t ln h(1) by (simp add: replicate_app_Cons_same)
  with h(2,4) tk ln show ?case by auto
qed

text \<open>
  Claim C6. For an instance whose \<open>days\<close> is the length of its infection profile and
  not zero, on which \<^verbatim>\<open>suppress\<close> returns a vector \<open>e\<close>, for a list of initial cases
  no longer than \<open>days\<close> and every number of steps \<open>n\<close>, \<^verbatim>\<open>simulate\<close> returns. Its
  series of reproduction numbers has \<open>n + 1\<close> entries: \<open>r0\<close>, recorded before the first
  step, and for each step the sum of \<open>e\<close>, the vector \<^verbatim>\<open>suppress\<close> returns on the
  instance, which the simulation does not change. Its history has \<open>n + 1\<close> rows of
  \<open>days\<close> entries, the first being the initial cases filled up with zeros.
\<close>

theorem simulate_records_r:
  assumes len: "days self = length (infection_rates self)" and pos: "0 < days self"
    and init: "length initial_cases \<le> days self"
    and sup: "suppress self = Inr e"
  shows "\<exists>hist. simulate self initial_cases n = Inr (hist, Fin (r0 self) # replicate n (fsum e))
           \<and> length (Fin (r0 self) # replicate n (fsum e)) = n + 1
           \<and> length hist = n + 1
           \<and> hd hist = map Fin initial_cases @ replicate (days self - length initial_cases) (Fin 0)
           \<and> list_all (\<lambda>row. length row = days self) hist"
proof -
  define x0 where
    "x0 = map Fin initial_cases @ replicate (days self - length initial_cases) (Fin 0)"
  have l0: "length x0 = days self" using init by (simp add: x0_def)
  from simulate_loop_ok [OF sup suppress_length [OF sup len] pos, of "[x0]" n "[Fin (r0 self)]"] l0
  obtain hist where h: "simulate_loop self n [x0] [Fin (r0 self)]
        = Inr (hist, [Fin (r0 self)] @ replicate n (fsum e))"
    "length hist = length [x0] + n" "take (length [x0]) hist = [x0]"
    "list_all (\<lambda>row. length row = days self) hist"
    by auto
  from h(2,3) have "hd hist = x0" by (cases hist) auto
  moreover have "simulate self initial_cases n = simulate_loop self n [x0] [Fin (r0 self)]"
    using init by (simp add: simulate_def x0_def)
  ultimately show ?thesis using h by (simp add: x0_def)
qed

theorem simulate_records_r_witness:
  "\<exists>hist. simulate fresh [1] 3 =
       Inr (hist, [Fin 2, Fin (3799 / 1904), Fin (3799 / 1904), Fin (3799 / 1904)])
     \<and> length hist = 4
     \<and> hd hist = [Fin 1, Fin 0, Fin 0, Fin 0, Fin 0, Fin 0, Fin 0, Fin 0]"
proof -
  have h: "days fresh = length (infection_rates fresh)" "0 < days fresh"
    "length [1::real] \<le> days fresh" by (simp_all add: fresh_eq)
  from simulate_records_r [OF h fresh_suppress, of 3]
  obtain hist where r:
    "simulate fresh [1] 3 =
       Inr (hist, Fin (r0 fresh) # replicate 3
              (fsum [Fin 0, Fin (1 / 14), Fin (3 / 14), Fin (3 / 7), Fin (4 / 7), Fin (3 / 7),
                     Fin (3 / 14), Fin (127 / 1904)]))"
    "length hist = 3 + 1"
    "hd hist = map Fin [1] @ replicate (days fresh - length [1::real]) (Fin 0)"
    by blast
  have a: "Fin (r0 fresh) # replicate 3
              (fsum [Fin 0, Fin (1 / 14), Fin (3 / 14), Fin (3 / 7), Fin (4 / 7), Fin (3 / 7),
                     Fin (3 / 14), Fin (127 / 1904)])
           = [Fin 2, Fin (3799 / 1904), Fin (3799 / 1904), Fin (3799 / 1904)]"
    by (simp add: fresh_eq eval_nat_numeral)
  have b: "map Fin [1] @ replicate (days fresh - length [1::real]) (Fin 0)
           = [Fin 1, Fin 0, Fin 0, Fin 0, Fin 0, Fin 0, Fin 0, Fin 0]"
    by (simp add: fresh_eq eval_nat_numeral)
  from r show ?thesis unfolding a b by (intro exI [of _ hist]) simp
qed

section \<open>Properties of the sweep\<close>

text \<open>The values of \<open>frange\<close>: as many as fit under the bound.\<close>

lemma frange_values:
  "(\<forall>k < n. x + real k * jump \<le> y + 1 / 100000 * jump) \<Longrightarrow>
   \<not> x + real n * jump \<le> y + 1 / 100000 * jump \<Longrightarrow>
   frange x y jump = Some (map (\<lambda>k. x + real k * jump) [0..<n])"
proof (induction n arbitrary: x)
  case 0
  then show ?case by (subst frange.simps) simp
next
  case (Suc n)
  from Suc.prems(1) [rule_format, of 0] have first: "x \<le> y + 1 / 100000 * jump" by simp
  have "\<forall>k < n. (x + jump) + real k * jump \<le> y + 1 / 100000 * jump"
  proof (intro allI impI)
    fix k assume "k < n"
    then have "Suc k < Suc n" by simp
    from Suc.prems(1) [rule_format, OF this] show "(x + jump) + real k * jump \<le> y + 1 / 100000 * jump"
      by (simp add: algebra_simps)
  qed
  moreover have "\<not> (x + jump) + real n * jump \<le> y + 1 / 100000 * jump"
    using Suc.prems(2) by (simp add: algebra_simps)
  ultimately have "frange (x + jump) y jump = Some (map (\<lambda>k. (x + jump) + real k * jump) [0..<n])"
    by (rule Suc.IH)
  then have "frange x y jump = Some (x # map (\<lambda>k. (x + jump) + real k * jump) [0..<n])"
    using first by (subst frange.simps) simp
  also have "x # map (\<lambda>k. (x + jump) + real k * jump) [0..<n]
             = map (\<lambda>k. x + real k * jump) [0..<Suc n]"
    by (simp add: map_upt_Suc algebra_simps del: upt_Suc)
  finally show ?case .
qed

lemma frange_general:
  assumes "0 < jump"
  shows "\<exists>n. frange x y jump = Some (map (\<lambda>k. x + real k * jump) [0..<n])
           \<and> (\<forall>k. k < n \<longleftrightarrow> x + real k * jump \<le> y + 1 / 100000 * jump)"
proof -
  define lim where "lim = y + 1 / 100000 * jump"
  define n where "n = (if x \<le> lim then nat \<lfloor>(lim - x) / jump\<rfloor> + 1 else 0)"
  have iff: "k < n \<longleftrightarrow> x + real k * jump \<le> lim" for k
  proof (cases "x \<le> lim")
    case False
    have "0 \<le> real k * jump" using assms by simp
    with False show ?thesis by (simp add: n_def)
  next
    case True
    then have nn: "0 \<le> (lim - x) / jump" using assms by simp
    have "k < n \<longleftrightarrow> int k \<le> \<lfloor>(lim - x) / jump\<rfloor>"
      using True nn by (simp add: n_def) linarith
    also have "\<dots> \<longleftrightarrow> real k \<le> (lim - x) / jump"
      by (simp add: le_floor_iff)
    also have "\<dots> \<longleftrightarrow> real k * jump \<le> lim - x"
      using assms by (simp add: pos_le_divide_eq)
    finally show ?thesis by (simp add: algebra_simps)
  qed
  have "\<forall>k < n. x + real k * jump \<le> y + 1 / 100000 * jump"
    using iff by (simp add: lim_def)
  moreover have "\<not> x + real n * jump \<le> y + 1 / 100000 * jump"
    using iff [of n] by (simp add: lim_def)
  ultimately have "frange x y jump = Some (map (\<lambda>k. x + real k * jump) [0..<n])"
    by (rule frange_values)
  with iff show ?thesis unfolding lim_def by blast
qed

lemma frange_r0:
  "frange 1 5 (1 / 10) = Some (map (\<lambda>k. 1 + real k * (1 / 10)) [0..<41])"
proof (rule frange_values)
  show "\<forall>k < 41. 1 + real k * (1 / 10) \<le> 5 + 1 / 100000 * (1 / 10)"
  proof (intro allI impI)
    fix k :: nat assume "k < 41"
    then have "real k \<le> 40" by simp
    then show "1 + real k * (1 / 10) \<le> 5 + 1 / 100000 * (1 / 10)" by simp
  qed
  show "\<not> 1 + real 41 * (1 / 10) \<le> 5 + 1 / 100000 * (1 / 10)" by simp
qed

lemma frange_percent:
  "frange 0 100 5 = Some (map (\<lambda>k. 0 + real k * 5) [0..<21])"
proof (rule frange_values)
  show "\<forall>k < 21. 0 + real k * 5 \<le> 100 + 1 / 100000 * 5"
  proof (intro allI impI)
    fix k :: nat assume "k < 21"
    then have "real k \<le> 20" by simp
    then show "0 + real k * 5 \<le> 100 + 1 / 100000 * 5" by simp
  qed
  show "\<not> 0 + real 21 * 5 \<le> 100 + 1 / 100000 * 5" by simp
qed

lemma frange_delay:
  "frange 0 10 1 = Some (map (\<lambda>k. 0 + real k * 1) [0..<11])"
proof (rule frange_values)
  show "\<forall>k < 11. 0 + real k * 1 \<le> 10 + 1 / 100000 * 1"
  proof (intro allI impI)
    fix k :: nat assume "k < 11"
    then have "real k \<le> 10" by simp
    then show "0 + real k * 1 \<le> 10 + 1 / 100000 * 1" by simp
  qed
  show "\<not> 0 + real 11 * 1 \<le> 10 + 1 / 100000 * 1" by simp
qed


text \<open>On finite profiles with a share denominator other than zero, \<open>suppress\<close> returns
  finite values.\<close>

lemma suppress_finite:
  assumes len: "days self = length (infection_rates self)"
    and td: "0 \<le> testing_delay self"
    and tt: "0 \<le> testing_delay self + tracing_delay self"
    and inf: "infection_rates self = map Fin ir"
    and sym: "symptoms self = map Fin sy" and ne: "sy \<noteq> []"
    and den: "(100 - sum_list sy) * (asymptomatic_inf self / 100) + sum_list sy \<noteq> 0"
  shows "\<exists>xs. suppress self = Inr (map Fin xs) \<and> length xs = days self"
proof -
  have sne: "symptoms self \<noteq> []" using sym ne by simp
  have T: "\<exists>t. testing_multiplier self d = Fin t" for d
  proof -
    from testing_multiplier_real [OF sym ne den, of d] obtain c where
      "\<forall>e. testing_multiplier (self\<lparr>isolation_effectivity := e\<rparr>) d =
                Fin (if int d < testing_delay self then 1
                     else 1 - testing_rate self / 100 * (e / 100) * c)" by blast
    from this [rule_format, of "isolation_effectivity self"] show ?thesis by simp
  qed
  have R: "\<exists>t. tracing_multiplier self d = Fin t" for d
  proof -
    from tracing_multiplier_real [OF sym den, of d] obtain c where
      "\<forall>e. tracing_multiplier (self\<lparr>isolation_effectivity := e\<rparr>) d =
                Fin (if int d < testing_delay self + tracing_delay self then 1
                     else 1 - c * (testing_rate self / 100) * (tracing_rate self / 100)
                              * (e / 100))" by blast
    from this [rule_format, of "isolation_effectivity self"] show ?thesis by simp
  qed
  define h where "h d = the_fin (fmul (fmul (Fin (ir ! d)) (testing_multiplier self d))
                                   (tracing_multiplier self d))" for d
  have n: "days self = length ir" using len inf by simp
  have "effective_infectiousness self
        = map (\<lambda>d. fmul (fmul (Fin (ir ! d)) (testing_multiplier self d))
                      (tracing_multiplier self d)) [0..<length ir]"
    by (simp add: effective_infectiousness_def n inf)
  also have "\<dots> = map (\<lambda>d. Fin (h d)) [0..<length ir]"
  proof (intro map_cong refl)
    fix d
    from T [of d] R [of d]
    show "fmul (fmul (Fin (ir ! d)) (testing_multiplier self d)) (tracing_multiplier self d)
          = Fin (h d)"
      unfolding h_def by auto
  qed
  finally have "effective_infectiousness self = map Fin (map h [0..<length ir])"
    by (simp add: o_def)
  with suppress_effective [OF len td tt sne]
  have "suppress self = Inr (map Fin (map h [0..<length ir]))" by simp
  moreover have "length (map h [0..<length ir]) = days self" using n by simp
  ultimately show ?thesis by blast
qed

lemma set_rates_rescale:
  assumes "infection_rates s = map Fin ir" and "sum_list ir \<noteq> 0" and "x \<noteq> 0"
  shows "set_rates s (Some x) None None =
           Inr (s\<lparr>r0 := x, infection_rates := map Fin (map (\<lambda>v. x * v / sum_list ir) ir),
                   days := length ir\<rparr>)"
  using assms by (simp add: set_rates_def fsum_map_Fin Let_def)

lemma rescale_again:
  assumes "c \<noteq> 0" and "sum_list ir \<noteq> (0::real)"
  shows "map (\<lambda>v. x * v / sum_list (map (\<lambda>v. c * v / sum_list ir) ir))
           (map (\<lambda>v. c * v / sum_list ir) ir)
         = map (\<lambda>v. x * v / sum_list ir) ir"
  using assms by (simp add: sum_list_scaled)

lemma row_r0:
  "map_of (map (\<lambda>(k, v). (k, getattr s k)) variables) ''r0'' = Some (r0 s)"
  by (simp add: variables_def getattr_def)


text \<open>The loop of the sweep: one record per value.\<close>

lemma iterate_loop_length:
  "iterate_loop s ident xs data = Inr (s', rows) \<Longrightarrow> length rows = length data + length xs"
proof (induction xs arbitrary: s data)
  case Nil
  then show ?case by simp
next
  case (Cons x xs)
  from Cons.prems obtain s1 r_val perc_val where
    "iterate_loop s1 ident xs
       (data @ [\<lparr>params = map (\<lambda>(k, v). (k, getattr s1 k)) variables,
                 r = r_val, perc = perc_val\<rparr>]) = Inr (s', rows)"
    by (auto split: sum.splits prod.splits)
  from Cons.IH [OF this] show ?case by simp
qed

lemma setattr_twice: "setattr (setattr s ident x) ident y = setattr s ident y"
  by (simp add: setattr_def)

text \<open>A sweep of a variable other than \<open>r0\<close> leaves the instance with the last value
  assigned.\<close>

lemma iterate_loop_other:
  "iterate_loop s ident xs data = Inr (s', rows) \<Longrightarrow> ident \<noteq> ''r0'' \<Longrightarrow>
   s' = (if xs = [] then s else setattr s ident (last xs))"
proof (induction xs arbitrary: s data)
  case Nil
  then show ?case by simp
next
  case (Cons x xs)
  from Cons.prems obtain r_val perc_val where
    "iterate_loop (setattr s ident x) ident xs
       (data @ [\<lparr>params = map (\<lambda>(k, v). (k, getattr (setattr s ident x) k)) variables,
                 r = r_val, perc = perc_val\<rparr>]) = Inr (s', rows)"
    by (auto split: sum.splits prod.splits)
  from Cons.IH [OF this Cons.prems(2)] show ?case by (simp add: setattr_twice)
qed

text \<open>A sweep of \<open>r0\<close> rescales the profile at every value; the profile it leaves is
  the first one scaled to the last value.\<close>

lemma iterate_loop_r0_frame:
  assumes "iterate_loop s ''r0'' xs data = Inr (s', rows)"
    and "infection_rates s = map Fin (map (\<lambda>v. c * v / sum_list ir) ir)"
    and "c \<noteq> 0" and "sum_list ir \<noteq> 0" and "0 \<notin> set xs"
  shows "take (length data) rows = data
         \<and> (\<forall>k < length xs. map_of (params (rows ! (length data + k))) ''r0'' = Some (xs ! k))
         \<and> s' = (if xs = [] then s
                 else s\<lparr>r0 := last xs,
                        infection_rates := map Fin (map (\<lambda>v. last xs * v / sum_list ir) ir),
                        days := length ir\<rparr>)"
  using assms
proof (induction xs arbitrary: s c data)
  case Nil
  then show ?case by simp
next
  case (Cons x xs)
  from Cons.prems(5) have x: "x \<noteq> 0" and xs: "0 \<notin> set xs" by auto
  define s1 where
    "s1 = s\<lparr>r0 := x, infection_rates := map Fin (map (\<lambda>v. x * v / sum_list ir) ir),
            days := length ir\<rparr>"
  have sumc: "sum_list (map (\<lambda>v. c * v / sum_list ir) ir) = c"
    using Cons.prems(4) by (simp add: sum_list_scaled)
  have sr: "set_rates s (Some x) None None = Inr s1"
    using set_rates_rescale [OF Cons.prems(2) _ x] sumc Cons.prems(3)
      rescale_again [OF Cons.prems(3,4), of x]
    by (simp add: s1_def)
  from Cons.prems(1) sr obtain r_val perc_val where
    run: "iterate_loop s1 ''r0'' xs
       (data @ [\<lparr>params = map (\<lambda>(k, v). (k, getattr s1 k)) variables,
                 r = r_val, perc = perc_val\<rparr>]) = Inr (s', rows)"
    by (auto split: sum.splits prod.splits)
  define row where "row = \<lparr>params = map (\<lambda>(k, v). (k, getattr s1 k)) variables,
                 r = r_val, perc = perc_val\<rparr>"
  have inf1: "infection_rates s1 = map Fin (map (\<lambda>v. x * v / sum_list ir) ir)"
    by (simp add: s1_def)
  from Cons.IH [OF run [folded row_def] inf1 x Cons.prems(4) xs]
  have ih: "take (length (data @ [row])) rows = data @ [row]"
    "\<forall>k < length xs. map_of (params (rows ! (length (data @ [row]) + k))) ''r0'' = Some (xs ! k)"
    "s' = (if xs = [] then s1
           else s1\<lparr>r0 := last xs,
                   infection_rates := map Fin (map (\<lambda>v. last xs * v / sum_list ir) ir),
                   days := length ir\<rparr>)"
    by simp_all
  have "take (length data) rows = take (length data) (take (length (data @ [row])) rows)"
    by (simp add: min_def)
  also have "\<dots> = data" by (simp only: ih(1)) simp
  finally have a: "take (length data) rows = data" .
  have "rows ! length data = take (length (data @ [row])) rows ! length data" by simp
  also have "\<dots> = row" by (simp only: ih(1)) simp
  finally have r0row: "map_of (params (rows ! length data)) ''r0'' = Some x"
    by (simp add: row_def row_r0 s1_def)
  have b: "map_of (params (rows ! (length data + k))) ''r0'' = Some ((x # xs) ! k)"
    if "k < length (x # xs)" for k
  proof (cases k)
    case 0
    with r0row show ?thesis by simp
  next
    case (Suc j)
    with that have "j < length xs" by simp
    from ih(2) [rule_format, OF this] Suc show ?thesis by simp
  qed
  have c: "s' = s\<lparr>r0 := last (x # xs),
                 infection_rates := map Fin (map (\<lambda>v. last (x # xs) * v / sum_list ir) ir),
                 days := length ir\<rparr>"
    using ih(3) by (simp add: s1_def)
  from a b c show ?case by simp
qed

lemma iterate_loop_r0_total:
  assumes "infection_rates s = map Fin (map (\<lambda>v. c * v / sum_list ir) ir)"
    and "c \<noteq> 0" and "sum_list ir \<noteq> 0" and "0 \<notin> set xs"
    and "symptoms s = map Fin sy" and "sy \<noteq> []"
    and "(100 - sum_list sy) * (asymptomatic_inf s / 100) + sum_list sy \<noteq> 0"
    and "0 \<le> testing_delay s" and "0 \<le> testing_delay s + tracing_delay s"
  shows "\<exists>s' rows. iterate_loop s ''r0'' xs data = Inr (s', rows)"
  using assms
proof (induction xs arbitrary: s c data)
  case Nil
  then show ?case by simp
next
  case (Cons x xs)
  from Cons.prems(4) have x: "x \<noteq> 0" and xs: "0 \<notin> set xs" by auto
  define s1 where
    "s1 = s\<lparr>r0 := x, infection_rates := map Fin (map (\<lambda>v. x * v / sum_list ir) ir),
            days := length ir\<rparr>"
  have sumc: "sum_list (map (\<lambda>v. c * v / sum_list ir) ir) = c"
    using Cons.prems(3) by (simp add: sum_list_scaled)
  have sr: "set_rates s (Some x) None None = Inr s1"
    using set_rates_rescale [OF Cons.prems(1) _ x] sumc Cons.prems(2)
      rescale_again [OF Cons.prems(2,3), of x]
    by (simp add: s1_def)
  have pos: "0 < days s1" using Cons.prems(3) by (cases ir) (simp_all add: s1_def)
  have "\<exists>ys. suppress s1 = Inr (map Fin ys) \<and> length ys = days s1"
    using Cons.prems(5-9)
    by (intro suppress_finite [where ir = "map (\<lambda>v. x * v / sum_list ir) ir" and sy = sy])
       (simp_all add: s1_def)
  then obtain ys where "suppress s1 = Inr (map Fin ys)" "length ys = days s1" by blast
  from get_r_and_growth_finite [OF this pos]
  obtain p where g: "get_r_and_growth s1 = Inr (Fin (sum_list ys), p)" by blast
  have "\<exists>s' rows. iterate_loop s1 ''r0'' xs
       (data @ [\<lparr>params = map (\<lambda>(k, v). (k, getattr s1 k)) variables,
                 r = Fin (sum_list ys), perc = p\<rparr>]) = Inr (s', rows)"
    using Cons.prems(5-9) x xs Cons.prems(3)
    by (intro Cons.IH [where c = x]) (simp_all add: s1_def)
  with sr g show ?case by simp
qed


lemma r0_values:
  "0 \<notin> set (map (\<lambda>k. 1 + real k * (1 / 10)) [0..<41])"
  "last (map (\<lambda>k. 1 + real k * (1 / 10)) [0..<41]) = 5"
  "length (map (\<lambda>k. 1 + real k * (1 / 10)) [0..<41]) = 41"
proof -
  have "1 + real k * (1 / 10) \<noteq> 0" for k
  proof -
    have "0 \<le> real k * (1 / 10)" by simp
    then show ?thesis by linarith
  qed
  then show "0 \<notin> set (map (\<lambda>k. 1 + real k * (1 / 10)) [0..<41])" by auto
  show "last (map (\<lambda>k. 1 + real k * (1 / 10)) [0..<41]) = 5"
    by (simp add: last_map)
  show "length (map (\<lambda>k. 1 + real k * (1 / 10)) [0..<41]) = 41" by simp
qed

lemma iterate_r0_unfold:
  "iterate self ''r0'' =
     Some (iterate_loop self ''r0'' (map (\<lambda>k. 1 + real k * (1 / 10)) [0..<41]) [])"
  by (simp add: iterate_def variables_def frange_r0)

lemma iterate_returns_frange:
  assumes "iterate self ident = Some (Inr (self', rows))"
  shows "\<exists>var xs. map_of variables ident = Some var
           \<and> frange (vmin var) (vmax var) (vstep var) = Some xs
           \<and> iterate_loop self ident xs [] = Inr (self', rows)
           \<and> length rows = length xs"
proof -
  from assms obtain var where v: "map_of variables ident = Some var"
    by (cases "map_of variables ident") (simp_all add: iterate_def)
  with assms obtain xs where x: "frange (vmin var) (vmax var) (vstep var) = Some xs"
    by (cases "frange (vmin var) (vmax var) (vstep var)") (simp_all add: iterate_def)
  with assms v have l: "iterate_loop self ident xs [] = Inr (self', rows)"
    by (simp add: iterate_def)
  from iterate_loop_length [OF l] v x l show ?thesis by simp
qed

text \<open>
  Claim C5. On an instance with finite profiles, an infection profile whose sum is not
  zero, a symptom profile that is not empty, a share denominator other than zero and
  delays that are not negative, the sweep of \<open>r0\<close> over its range \<open>(1.0, 5.0, 0.1)\<close>
  returns exactly 41 records, and the \<open>r0\<close> of record \<open>k\<close> is the swept value
  \<open>1 + k/10\<close> (exactly, finite arithmetic being exact here), so the records are in
  increasing order of it. In general, for a positive step, \<^verbatim>\<open>frange\<close> yields the
  values \<open>x + k * jump\<close> in increasing order, one for every \<open>k\<close> with \<open>x + k * jump \<le>
  y + 0.00001 * jump\<close>, the bound being \<open>max\<close> with the tolerance; and a sweep that
  returns has one record for each value \<^verbatim>\<open>frange\<close> yields on the range of its
  variable.
\<close>

theorem sweep_r0_complete:
  assumes inf: "infection_rates self = map Fin ir" and S: "sum_list ir \<noteq> 0"
    and sym: "symptoms self = map Fin sy" and ne: "sy \<noteq> []"
    and den: "(100 - sum_list sy) * (asymptomatic_inf self / 100) + sum_list sy \<noteq> 0"
    and td: "0 \<le> testing_delay self" and tt: "0 \<le> testing_delay self + tracing_delay self"
  shows "(\<exists>self' rows. iterate self ''r0'' = Some (Inr (self', rows)) \<and> length rows = 41
            \<and> (\<forall>k < 41. map_of (params (rows ! k)) ''r0'' = Some (1 + real k / 10)))
       \<and> (0 < jump \<longrightarrow>
            (\<exists>n. frange x y jump = Some (map (\<lambda>k. x + real k * jump) [0..<n])
               \<and> (\<forall>k. k < n \<longleftrightarrow> x + real k * jump \<le> y + 1 / 100000 * jump)))
       \<and> (\<forall>ident self' rows. iterate self ident = Some (Inr (self', rows)) \<longrightarrow>
            (\<exists>var xs. map_of variables ident = Some var
               \<and> frange (vmin var) (vmax var) (vstep var) = Some xs
               \<and> length rows = length xs))"
proof (intro conjI impI allI)
  define xs where "xs = map (\<lambda>k. 1 + real k * (1 / 10)) [0..<41]"
  have scaled: "infection_rates self = map Fin (map (\<lambda>v. sum_list ir * v / sum_list ir) ir)"
    using inf S by simp
  from iterate_loop_r0_total [OF scaled S S r0_values(1) sym ne den td tt, of "[]"]
  obtain self' rows where run: "iterate_loop self ''r0'' xs [] = Inr (self', rows)"
    unfolding xs_def by blast
  from iterate_loop_length [OF run] have len: "length rows = 41" by (simp add: xs_def)
  from iterate_loop_r0_frame [OF run scaled S S] r0_values(1)
  have "\<forall>k < length xs. map_of (params (rows ! k)) ''r0'' = Some (xs ! k)"
    by (simp add: xs_def)
  then have "\<forall>k < 41. map_of (params (rows ! k)) ''r0'' = Some (1 + real k / 10)"
    by (simp add: xs_def)
  with run len
  show "\<exists>self' rows. iterate self ''r0'' = Some (Inr (self', rows)) \<and> length rows = 41
            \<and> (\<forall>k < 41. map_of (params (rows ! k)) ''r0'' = Some (1 + real k / 10))"
    unfolding iterate_r0_unfold xs_def by blast
next
  assume "0 < jump"
  from frange_general [OF this]
  show "\<exists>n. frange x y jump = Some (map (\<lambda>k. x + real k * jump) [0..<n])
               \<and> (\<forall>k. k < n \<longleftrightarrow> x + real k * jump \<le> y + 1 / 100000 * jump)" .
next
  fix ident self' rows
  assume "iterate self ident = Some (Inr (self', rows))"
  from iterate_returns_frange [OF this]
  show "\<exists>var xs. map_of variables ident = Some var
               \<and> frange (vmin var) (vmax var) (vstep var) = Some xs
               \<and> length rows = length xs" by blast
qed

theorem sweep_r0_complete_witness:
  "(\<exists>self' rows. iterate fresh ''r0'' = Some (Inr (self', rows)) \<and> length rows = 41
            \<and> (\<forall>k < 41. map_of (params (rows ! k)) ''r0'' = Some (1 + real k / 10))
            \<and> (\<exists>var xs. map_of variables ''r0'' = Some var
               \<and> frange (vmin var) (vmax var) (vstep var) = Some xs
               \<and> length rows = length xs))
   \<and> (\<exists>n. frange 0 1 (1 / 4) = Some (map (\<lambda>k. 0 + real k * (1 / 4)) [0..<n])
               \<and> (\<forall>k. k < n \<longleftrightarrow> 0 + real k * (1 / 4) \<le> 1 + 1 / 100000 * (1 / 4)))"
proof -
  have h: "infection_rates fresh = map Fin [0, 1 / 14, 3 / 14, 3 / 7, 4 / 7, 3 / 7, 3 / 14, 1 / 14]"
    "sum_list [0, 1 / 14, 3 / 14, 3 / 7, 4 / 7, 3 / 7, 3 / 14, 1 / 14 :: real] \<noteq> 0"
    "symptoms fresh = map Fin [0, 0, 0, 0, 10, 20, 20, 10]"
    "[0, 0, 0, 0, 10, 20, 20, 10] \<noteq> ([] :: real list)"
    "(100 - sum_list [0, 0, 0, 0, 10, 20, 20, 10]) * (asymptomatic_inf fresh / 100)
       + sum_list [0, 0, 0, 0, 10, 20, 20, 10] \<noteq> 0"
    "0 \<le> testing_delay fresh" "0 \<le> testing_delay fresh + tracing_delay fresh"
    by (simp_all add: fresh_eq)
  note t = sweep_r0_complete [OF h, of "1 / 4" 0 1]
  from t obtain self' rows where
    a: "iterate fresh ''r0'' = Some (Inr (self', rows))" "length rows = 41"
       "\<forall>k < 41. map_of (params (rows ! k)) ''r0'' = Some (1 + real k / 10)" by blast
  from t a(1) have b: "\<exists>var xs. map_of variables ''r0'' = Some var
               \<and> frange (vmin var) (vmax var) (vstep var) = Some xs
               \<and> length rows = length xs" by blast
  from t have c: "\<exists>n. frange 0 1 (1 / 4) = Some (map (\<lambda>k. 0 + real k * (1 / 4)) [0..<n])
               \<and> (\<forall>k. k < n \<longleftrightarrow> 0 + real k * (1 / 4) \<le> 1 + 1 / 100000 * (1 / 4))" by simp
  from a b c show ?thesis by blast
qed


lemma registry_ids:
  assumes "map_of variables ident = Some var"
  shows "ident = ''r0'' \<and> var = \<lparr>vmin = 1, vmax = 5, vstep = 1 / 10, vdefault = 2\<rparr>
       \<or> ident = ''testing_rate'' \<and> var = \<lparr>vmin = 0, vmax = 100, vstep = 5, vdefault = 50\<rparr>
       \<or> ident = ''testing_delay'' \<and> var = \<lparr>vmin = 0, vmax = 10, vstep = 1, vdefault = 3\<rparr>
       \<or> ident = ''isolation_effectivity''
           \<and> var = \<lparr>vmin = 0, vmax = 100, vstep = 5, vdefault = 90\<rparr>
       \<or> ident = ''tracing_rate'' \<and> var = \<lparr>vmin = 0, vmax = 100, vstep = 5, vdefault = 0\<rparr>
       \<or> ident = ''tracing_delay'' \<and> var = \<lparr>vmin = 0, vmax = 10, vstep = 1, vdefault = 1\<rparr>
       \<or> ident = ''asymptomatic_inf''
           \<and> var = \<lparr>vmin = 0, vmax = 100, vstep = 5, vdefault = 20\<rparr>"
  using assms by (simp add: variables_def split: if_splits)

lemma percent_values: "map (\<lambda>k. 0 + real k * 5) [0..<21] \<noteq> []"
  by simp

lemma delay_values: "map (\<lambda>k. 0 + real k * 1) [0..<11] \<noteq> []"
  by simp

text \<open>What a sweep of a variable other than \<open>r0\<close> leaves, from the values of its range.\<close>

lemma iterate_other_frame:
  assumes "iterate self ident = Some (Inr (self', rows))" and "ident \<noteq> ''r0''"
    and "map_of variables ident = Some var"
    and "frange (vmin var) (vmax var) (vstep var) = Some xs" and "xs \<noteq> []"
  shows "self' = setattr self ident (last xs)"
proof -
  from assms(1,3,4) have "iterate_loop self ident xs [] = Inr (self', rows)"
    by (simp add: iterate_def)
  from iterate_loop_other [OF this assms(2)] assms(5) show ?thesis by simp
qed

text \<open>
  Claim C9. A sweep assigns to the instance and does not restore it. When
  \<^verbatim>\<open>iterate(id)\<close> returns, on an instance with a finite infection profile of \<open>days\<close>
  entries whose sum is not zero, the swept attribute holds the last value of its range,
  which is the \<open>max\<close> of the registry; every other variable of the registry, the
  symptom profile and \<open>days\<close> are as before; the infection profile is as before unless
  the id is \<open>r0\<close>, and then it is the former profile scaled to sum to that last value.
\<close>

theorem sweep_leaves_last_value:
  assumes ret: "iterate self ident = Some (Inr (self', rows))"
    and inf: "infection_rates self = map Fin ir" and S: "sum_list ir \<noteq> 0"
    and len: "days self = length ir"
  shows "\<exists>var. map_of variables ident = Some var
           \<and> getattr self' ident = vmax var
           \<and> (\<forall>other. other \<noteq> ident \<longrightarrow> getattr self' other = getattr self other)
           \<and> symptoms self' = symptoms self
           \<and> days self' = days self
           \<and> (if ident = ''r0''
               then infection_rates self' = map (\<lambda>v. Fin (vmax var * v / sum_list ir)) ir
                    \<and> fsum (infection_rates self') = Fin (vmax var)
               else infection_rates self' = infection_rates self)"
proof -
  from iterate_returns_frange [OF ret] obtain var where v: "map_of variables ident = Some var"
    by blast
  from registry_ids [OF v]
  consider (r0) "ident = ''r0''" "var = \<lparr>vmin = 1, vmax = 5, vstep = 1 / 10, vdefault = 2\<rparr>"
    | (percent) "ident \<noteq> ''r0''" "vmin var = 0" "vmax var = 100" "vstep var = 5"
        "ident = ''testing_rate'' \<or> ident = ''isolation_effectivity''
         \<or> ident = ''tracing_rate'' \<or> ident = ''asymptomatic_inf''"
    | (delay) "ident \<noteq> ''r0''" "vmin var = 0" "vmax var = 10" "vstep var = 1"
        "ident = ''testing_delay'' \<or> ident = ''tracing_delay''"
    by auto
  then show ?thesis
  proof cases
    case r0
    define xs where "xs = map (\<lambda>k. 1 + real k * (1 / 10)) [0..<41]"
    have scaled: "infection_rates self = map Fin (map (\<lambda>v. sum_list ir * v / sum_list ir) ir)"
      using inf S by simp
    from ret r0(1) have run: "iterate_loop self ''r0'' xs [] = Inr (self', rows)"
      by (simp add: iterate_r0_unfold xs_def)
    from iterate_loop_r0_frame [OF run scaled S S] r0_values(1)
    have "self' = (if xs = [] then self
                 else self\<lparr>r0 := last xs,
                        infection_rates := map Fin (map (\<lambda>v. last xs * v / sum_list ir) ir),
                        days := length ir\<rparr>)"
      by (simp add: xs_def)
    then have s': "self' = self\<lparr>r0 := 5,
                        infection_rates := map Fin (map (\<lambda>v. 5 * v / sum_list ir) ir),
                        days := length ir\<rparr>"
      using r0_values(2) by (simp add: xs_def)
    have "fsum (map Fin (map (\<lambda>v. 5 * v / sum_list ir) ir)) = Fin 5"
      using S by (simp only: fsum_map_Fin sum_list_scaled) simp
    with s' v r0 len show ?thesis by (simp add: getattr_def o_def)
  next
    case percent
    from iterate_other_frame [OF ret percent(1) v _ percent_values] frange_percent percent(2-4)
    have "self' = setattr self ident 100" by (simp add: last_map)
    with v percent show ?thesis by (auto simp: setattr_def getattr_def)
  next
    case delay
    from iterate_other_frame [OF ret delay(1) v _ delay_values] frange_delay delay(2-4)
    have "self' = setattr self ident 10" by (simp add: last_map)
    with v delay show ?thesis by (auto simp: setattr_def getattr_def)
  qed
qed

theorem sweep_leaves_last_value_witness:
  "\<exists>self' rows. iterate fresh ''r0'' = Some (Inr (self', rows))
     \<and> getattr self' ''r0'' = 5
     \<and> getattr self' ''testing_rate'' = 50
     \<and> symptoms self' = symptoms fresh
     \<and> days self' = 8
     \<and> infection_rates self' =
         map (\<lambda>v. Fin (5 * v / 2)) [0, 1 / 14, 3 / 14, 3 / 7, 4 / 7, 3 / 7, 3 / 14, 1 / 14]
     \<and> fsum (infection_rates self') = Fin 5"
proof -
  have h: "infection_rates fresh = map Fin [0, 1 / 14, 3 / 14, 3 / 7, 4 / 7, 3 / 7, 3 / 14, 1 / 14]"
    "sum_list [0, 1 / 14, 3 / 14, 3 / 7, 4 / 7, 3 / 7, 3 / 14, 1 / 14 :: real] \<noteq> 0"
    "days fresh = length [0, 1 / 14, 3 / 14, 3 / 7, 4 / 7, 3 / 7, 3 / 14, 1 / 14 :: real]"
    by (simp_all add: fresh_eq)
  have g: "symptoms fresh = map Fin [0, 0, 0, 0, 10, 20, 20, 10]"
    "[0, 0, 0, 0, 10, 20, 20, 10] \<noteq> ([] :: real list)"
    "(100 - sum_list [0, 0, 0, 0, 10, 20, 20, 10]) * (asymptomatic_inf fresh / 100)
       + sum_list [0, 0, 0, 0, 10, 20, 20, 10] \<noteq> 0"
    "0 \<le> testing_delay fresh" "0 \<le> testing_delay fresh + tracing_delay fresh"
    by (simp_all add: fresh_eq)
  have scaled: "infection_rates fresh =
      map Fin (map (\<lambda>v. sum_list [0, 1 / 14, 3 / 14, 3 / 7, 4 / 7, 3 / 7, 3 / 14, 1 / 14] * v
                        / sum_list [0, 1 / 14, 3 / 14, 3 / 7, 4 / 7, 3 / 7, 3 / 14, 1 / 14])
                 [0, 1 / 14, 3 / 14, 3 / 7, 4 / 7, 3 / 7, 3 / 14, 1 / 14])"
    by (simp add: fresh_eq)
  from iterate_loop_r0_total [OF scaled h(2) h(2) r0_values(1) g, of "[]"]
  obtain self' rows where run: "iterate fresh ''r0'' = Some (Inr (self', rows))"
    unfolding iterate_r0_unfold by blast
  from sweep_leaves_last_value [OF run h] obtain var where
    r: "map_of variables ''r0'' = Some var" "getattr self' ''r0'' = vmax var"
      "\<forall>other. other \<noteq> ''r0'' \<longrightarrow> getattr self' other = getattr fresh other"
      "symptoms self' = symptoms fresh" "days self' = days fresh"
      "infection_rates self' =
         map (\<lambda>v. Fin (vmax var * v / sum_list [0, 1 / 14, 3 / 14, 3 / 7, 4 / 7, 3 / 7, 3 / 14, 1 / 14]))
           [0, 1 / 14, 3 / 14, 3 / 7, 4 / 7, 3 / 7, 3 / 14, 1 / 14]"
      "fsum (infection_rates self') = Fin (vmax var)"
    by auto
  from r(1) have vm: "vmax var = 5" by (auto simp: variables_def)
  from r(3) have tr: "getattr self' ''testing_rate'' = getattr fresh ''testing_rate''" by simp
  have "getattr fresh ''testing_rate'' = 50" "days fresh = 8" by (simp_all add: getattr_def fresh_eq)
  with run r vm tr show ?thesis by (intro exI [of _ self'] exI [of _ rows]) simp
qed

end
